theory Spec2Isabelle
  imports Complex_Main "HOL-Library.Sublist"
begin

unbundle bit_operations_syntax

section \<open>Veri-Charm: a shallow embedding of the demo application, the Scrolls API
  client and the product-verification circuit\<close>

text \<open>
  The repository holds three pieces of code with behaviour of their own:
  \<^item> the privacy shield of the Scrolls API client (\<open>applyPrivacyShield\<close>,
    \<open>extractPublicData\<close>, \<open>isSensitiveField\<close>, \<open>hashData\<close>,
    \<open>getSupplyChainHistory\<close>, \<open>handleError\<close>);
  \<^item> the circom template \<open>ProductVerification\<close>;
  \<^item> the demo application (\<open>appState\<close>, \<open>addTransaction\<close>,
    \<open>verifyRetailerAddress\<close>, \<open>confirmReceipt\<close>, \<open>burnToken\<close>,
    \<open>showTokenDetails\<close>, ...).
  Each is translated below, function by function. The definitions come first, the
  theorems after them.
\<close>

subsection \<open>JavaScript values as they arrive from the HTTP client\<close>

text \<open>
  The data handed to the privacy shield is the parsed JSON body of a response. An object
  is the list of its own enumerable properties in the order \<open>Object.entries\<close>
  yields them; the keys of one object are pairwise distinct. \<open>JSON.parse\<close> makes
  every member of an object an own property, also one named \<open>__proto__\<close>.
  Numbers are carried through untouched, only their being zero is ever inspected
  (truthiness). Strings are well-formed and written as byte strings: a character
  outside ASCII is its UTF-8 encoding.
\<close>

datatype jvalue =
    JNull
  | JBool bool
  | JNum rat
  | JStr string
  | JArr "jvalue list"
  | JObj "(string \<times> jvalue) list"

text \<open>Truthiness of a value, as \<open>&&\<close> and \<open>||\<close> test it.\<close>

fun truthy :: "jvalue \<Rightarrow> bool" where
  "truthy JNull = False"
| "truthy (JBool b) = b"
| "truthy (JNum n) = (n \<noteq> 0)"
| "truthy (JStr s) = (s \<noteq> [])"
| "truthy (JArr _) = True"
| "truthy (JObj _) = True"

text \<open>
  \<open>obj[key] = v\<close> on an object: an existing property keeps its place and takes the
  new value, a new property goes to the end.
\<close>

fun assign :: "string \<Rightarrow> jvalue \<Rightarrow> (string \<times> jvalue) list \<Rightarrow> (string \<times> jvalue) list" where
  "assign k v [] = [(k, v)]"
| "assign k v ((k', v') # es) = (if k = k' then (k, v) # es else (k', v') # assign k v es)"

text \<open>
  The fields of a value, at any depth: a path is a list of property names and array
  indices, and \<open>get_path\<close> follows it through own properties and array elements
  (what \<open>Object.entries\<close> and \<open>JSON.stringify\<close> show of a value). The result
  is \<open>None\<close> where there is no such own property or element.
\<close>

datatype accessor = Key string | Idx nat

fun get_path :: "jvalue \<Rightarrow> accessor list \<Rightarrow> jvalue option" where
  "get_path v [] = Some v"
| "get_path (JObj es) (Key k # p) =
     (case map_of es k of None \<Rightarrow> None | Some v \<Rightarrow> get_path v p)"
| "get_path (JArr xs) (Idx i # p) = (if i < length xs then get_path (xs ! i) p else None)"
| "get_path _ _ = None"


subsection \<open>String helpers of the JavaScript library\<close>

text \<open>
  \<open>String.prototype.toLowerCase\<close> is a function of the JavaScript library, defined by
  the case mappings of Unicode (it sends the Kelvin sign U+212A to \<open>k\<close>, for one). It
  is not defined here: the functions that call it take it as the parameter
  \<open>toLowerCase\<close>. On a string of ASCII characters the library function maps the
  letters A to Z to a to z and leaves every other character alone; that function on
  ASCII strings is \<open>ascii_toLowerCase\<close>, which stands in for the parameter where a
  theorem is evaluated on ASCII names.
\<close>

definition lowerChar :: "char \<Rightarrow> char" where
  "lowerChar c = (let n = (of_char c :: nat) in if 65 \<le> n \<and> n \<le> 90 then char_of (n + 32) else c)"

definition ascii_toLowerCase :: "string \<Rightarrow> string" where
  "ascii_toLowerCase s = map lowerChar s"

text \<open>\<open>hay.includes(needle)\<close>: the needle occurs at some position of the haystack.\<close>

fun str_includes :: "string \<Rightarrow> string \<Rightarrow> bool" where
  "str_includes [] needle = (needle = [])"
| "str_includes (c # cs) needle =
     (take (length needle) (c # cs) = needle \<or> str_includes cs needle)"

text \<open>Decimal and hexadecimal rendering of a number, and \<open>padStart\<close>.\<close>

definition digit_char :: "nat \<Rightarrow> char" where
  "digit_char d = (if d < 10 then char_of (48 + d) else char_of (87 + d))"

fun to_string_radix :: "nat \<Rightarrow> nat \<Rightarrow> string" where
  "to_string_radix r n =
     (if r < 2 \<or> n < r then [digit_char n]
      else to_string_radix r (n div r) @ [digit_char (n mod r)])"

declare to_string_radix.simps [simp del]

definition padStart :: "nat \<Rightarrow> char \<Rightarrow> string \<Rightarrow> string" where
  "padStart len c s = replicate (len - length s) c @ s"

subsection \<open>The privacy shield (Scrolls API client)\<close>

text \<open>
  \<^verbatim>\<open>isSensitiveField(fieldName)\<close>: some entry of the list, lowercased, occurs in the
  lowercased field name.
\<close>

definition sensitiveFields :: "string list" where
  "sensitiveFields =
     [''privateKey'', ''secret'', ''password'', ''pin'',
      ''address'', ''email'', ''phone'', ''ssn'', ''dob'']"

definition isSensitiveField :: "(string \<Rightarrow> string) \<Rightarrow> string \<Rightarrow> bool" where
  "isSensitiveField toLowerCase fieldName =
     list_ex (\<lambda>sensitive. str_includes (toLowerCase fieldName) (toLowerCase sensitive))
       sensitiveFields"

text \<open>
  \<^verbatim>\<open>extractPublicData(data)\<close>: an array is mapped element by element; an object is
  rebuilt by assigning entry by entry to a fresh object \<open>publicData = {}\<close>, a
  non-sensitive key getting the extracted value and a sensitive key the marker; anything
  else is returned as it is.

  The assignment \<open>publicData[key] = ...\<close> creates the own property \<open>key\<close>, with
  one exception: for the key \<open>__proto__\<close> it runs the setter that
  \<open>Object.prototype\<close> has under that name, which installs an object (or
  \<open>null\<close>) as the prototype of \<open>publicData\<close> and ignores every other value. In
  neither case does \<open>publicData\<close> get an own property \<open>__proto__\<close>, and the
  assignments of the other keys create their own properties as before. The result is
  given by its own properties, so an entry \<open>__proto__\<close> of the source has no entry
  in it.
\<close>

fun extractPublicData :: "(string \<Rightarrow> string) \<Rightarrow> jvalue \<Rightarrow> jvalue" where
  "extractPublicData toLowerCase (JArr items) =
     JArr (map (extractPublicData toLowerCase) items)"
| "extractPublicData toLowerCase (JObj entries) =
     JObj (map (\<lambda>(key, v).
              if \<not> isSensitiveField toLowerCase key
              then (key, extractPublicData toLowerCase v)
              else (key, JStr ''[REDACTED]''))
            (filter (\<lambda>(key, v). key \<noteq> ''__proto__'') entries))"
| "extractPublicData toLowerCase data = data"


text \<open>
  \<^verbatim>\<open>hashData(data)\<close>: the bytes of the JSON text, each as two hexadecimal digits.
  \<open>JSON.stringify\<close> followed by \<open>TextEncoder.encode\<close> is a library function and is
  taken as the parameter \<open>stringify\<close>.
\<close>

definition hashData :: "(jvalue \<Rightarrow> string) \<Rightarrow> jvalue \<Rightarrow> string" where
  "hashData stringify data =
     concat (map (\<lambda>b. padStart 2 (CHR ''0'') (to_string_radix 16 (of_char b))) (stringify data))"

text \<open>
  The external prover \<open>zk.generateProof('privacy-shield', ...)\<close> receives the data hash
  and the raw data. It either throws (\<open>Inl\<close> with the error) or returns a proof object.
\<close>

record zkProof =
  zk_proof :: jvalue
  zk_publicSignals :: jvalue
  zk_verificationKey :: jvalue

type_synonym prover = "string \<Rightarrow> jvalue \<Rightarrow> string + zkProof"

datatype console_entry = ConsoleWarn string | ConsoleError string

text \<open>
  \<^verbatim>\<open>applyPrivacyShield(data)\<close> returns the shielded object, or in the \<open>catch\<close>
  branch the data it was given, after a console warning. The console output is the second
  component of the result (the fixed text of each line; the error object printed after it
  is left out).
\<close>

definition applyPrivacyShield ::
  "(string \<Rightarrow> string) \<Rightarrow> (jvalue \<Rightarrow> string) \<Rightarrow> prover \<Rightarrow> jvalue
     \<Rightarrow> jvalue \<times> console_entry list" where
  "applyPrivacyShield toLowerCase stringify generateProof data =
     (case generateProof (hashData stringify data) data of
        Inr zkProof \<Rightarrow>
          (JObj [(''proof'', zk_proof zkProof),
                 (''publicSignals'', zk_publicSignals zkProof),
                 (''verificationKey'', zk_verificationKey zkProof),
                 (''publicData'', extractPublicData toLowerCase data)], [])
      | Inl error \<Rightarrow>
          (data, [ConsoleWarn ''ZK privacy shield failed, falling back to plain data:'']))"

text \<open>
  The HTTP client either yields the response body or fails in one of the three ways
  \<^verbatim>\<open>handleError\<close> tells apart: the server answered with a status (and perhaps a
  message), no response came, or the request could not be set up.
\<close>

datatype http_error =
    ResponseError nat "string option"
  | NoResponse
  | SetupError string

fun handleError :: "http_error \<Rightarrow> string" where
  "handleError (ResponseError status msg) =
     ''Scrolls API Error '' @ to_string_radix 10 status @ '': '' @
     (case msg of Some m \<Rightarrow> (if m \<noteq> [] then m else ''Unknown error'')
                | None \<Rightarrow> ''Unknown error'')"
| "handleError NoResponse = ''No response from Scrolls API. Check your connection.''"
| "handleError (SetupError m) = ''Scrolls API request failed: '' @ m"

text \<open>
  \<^verbatim>\<open>getSupplyChainHistory(productId, options)\<close>, given what the HTTP request
  produced and the \<open>privacy\<close> option. Reading \<open>history\<close> from a \<open>null\<close> body throws
  inside the \<open>try\<close>; the text of that error is the parameter \<open>nullMessage\<close>.
\<close>

definition getSupplyChainHistory ::
  "(string \<Rightarrow> string) \<Rightarrow> (jvalue \<Rightarrow> string) \<Rightarrow> prover \<Rightarrow> string
     \<Rightarrow> http_error + jvalue \<Rightarrow> bool \<Rightarrow> (string + jvalue) \<times> console_entry list" where
  "getSupplyChainHistory toLowerCase stringify generateProof nullMessage response privacy =
     (case response of
        Inl error \<Rightarrow>
          (Inl (handleError error), [ConsoleError ''Failed to get supply chain history:''])
      | Inr data \<Rightarrow>
          (if \<not> privacy then (Inr data, [])
           else case data of
               JNull \<Rightarrow>
                 (Inl (handleError (SetupError nullMessage)),
                  [ConsoleError ''Failed to get supply chain history:''])
             | JObj entries \<Rightarrow>
                 (case map_of entries ''history'' of
                    None \<Rightarrow> (Inr data, [])
                  | Some history \<Rightarrow>
                      if truthy history then
                        (let (shielded, console) =
                               applyPrivacyShield toLowerCase stringify generateProof history
                         in (Inr (JObj (assign ''history'' shielded entries)), console))
                      else (Inr data, []))
             | _ \<Rightarrow> (Inr data, [])))"

subsection \<open>The circuit \<open>ProductVerification\<close>\<close>

text \<open>
  Signals are elements of the scalar field of BN254, circom's default prime; a signal is
  the number below \<open>field_p\<close> that represents it, and \<open>+\<close> and \<open>-\<close> on signals are
  taken modulo \<open>field_p\<close>. Every input of the comparator enters through these
  operations, so a larger number stands for its remainder.
\<close>

definition field_p :: nat where
  "field_p = 21888242871839275222246405745257275088548364400416034343698204186575808495617"

definition fadd :: "nat \<Rightarrow> nat \<Rightarrow> nat" where
  "fadd a b = (a + b) mod field_p"

definition fsub :: "nat \<Rightarrow> nat \<Rightarrow> nat" where
  "fsub a b = (a + (field_p - b mod field_p)) mod field_p"

text \<open>
  The comparator is circomlib's, which the circuit instantiates as \<open>LessEqThan(64)\<close>:
  \<^verbatim>\<open>
  template Num2Bits(n) {                    template LessThan(n) {
      signal input in;                          assert(n <= 252);
      signal output out[n];                     signal input in[2];
      var lc1=0;                                signal output out;
      var e2=1;                                 component n2b = Num2Bits(n+1);
      for (var i = 0; i<n; i++) {               n2b.in <== in[0]+ (1<<n) - in[1];
          out[i] <-- (in >> i) & 1;             out <== 1-n2b.out[n];
          out[i] * (out[i] -1 ) === 0;      }
          lc1 += out[i] * e2;               template LessEqThan(n) {
          e2 = e2+e2;                           signal input in[2];
      }                                         signal output out;
      lc1 === in;                               component lt = LessThan(n);
  }                                             lt.in[0] <== in[0];
                                                lt.in[1] <== in[1]+1;
                                                lt.out ==> out;
                                            }
  \<close>
  A constraint \<open>===\<close> that does not hold leaves the circuit without a witness: the
  component, and the circuit with it, yields \<open>None\<close>.
\<close>

definition Num2Bits :: "nat \<Rightarrow> nat \<Rightarrow> nat list option" where
  "Num2Bits n inp =
     (let out = map (\<lambda>i. drop_bit i inp AND 1) [0..<n];
          lc1 = (\<Sum>i\<leftarrow>[0..<n]. out ! i * 2 ^ i) mod field_p
      in if lc1 = inp then Some out else None)"

definition LessThan :: "nat \<Rightarrow> nat \<Rightarrow> nat \<Rightarrow> nat option" where
  "LessThan n in0 in1 =
     (case Num2Bits (n + 1) (fsub (fadd in0 (push_bit n 1)) in1) of
        None \<Rightarrow> None
      | Some out \<Rightarrow> Some (fsub 1 (out ! n)))"

definition LessEqThan :: "nat \<Rightarrow> nat \<Rightarrow> nat \<Rightarrow> nat option" where
  "LessEqThan n in0 in1 = LessThan n in0 (fadd in1 1)"

record circuit_inputs =
  verificationHash :: nat
  manufacturerPublicKey :: nat
  currentTimestamp :: nat
  productId :: nat
  ownerPrivateKey :: nat
  mintTimestamp :: nat
  warrantyPeriod :: nat
  supplyChainHash :: nat

record circuit_outputs =
  isValid :: nat
  isInWarranty :: nat
  zkProofHash :: nat

text \<open>
  The template instantiates two hash components, \<open>sha = SHA256(2)\<close>, wired to
  \<open>productId\<close> and \<open>mintTimestamp\<close>, and \<open>pedersen = Pedersen(256)\<close>, wired to
  \<open>productId\<close> and \<open>supplyChainHash\<close>, with \<open>zkProofHash <== pedersen.out\<close>.
  Neither matches circomlib: its hash template is named \<open>Sha256\<close>, and its
  \<open>Pedersen(256)\<close> has 256 inputs and a pair of outputs, so the compiler does not
  accept the template as it stands and the shipped file yields no witness for any
  input. What the two components compute, and whether they accept what they are
  wired to, is therefore not decided here: they are the parameters \<open>sha\<close> and
  \<open>pedersen\<close>, each a function of its two wired signals that yields \<open>None\<close>
  where the component has no witness. The shipped file is the case of components that
  always yield \<open>None\<close>. The circuit has a witness only if each of its components
  has one. Steps 1 and 4 of the template are comments only.
\<close>

definition ProductVerification ::
  "(nat \<Rightarrow> nat \<Rightarrow> nat list option) \<Rightarrow> (nat \<Rightarrow> nat \<Rightarrow> nat option)
     \<Rightarrow> circuit_inputs \<Rightarrow> circuit_outputs option" where
  "ProductVerification sha pedersen inp =
     (case sha (productId inp) (mintTimestamp inp) of
        None \<Rightarrow> None
      | Some sha_out \<Rightarrow>
          (case LessEqThan 64 (currentTimestamp inp)
                  (fadd (mintTimestamp inp) (warrantyPeriod inp)) of
             None \<Rightarrow> None
           | Some compare_out \<Rightarrow>
               (case pedersen (productId inp) (supplyChainHash inp) of
                  None \<Rightarrow> None
                | Some pedersen_out \<Rightarrow>
                    Some \<lparr> isValid = 1,
                           isInWarranty = compare_out,
                           zkProofHash = pedersen_out \<rparr>)))"

subsection \<open>The demo application: state\<close>

text \<open>
  \<open>appState\<close> is a global object; every function below takes the state and returns the
  new one. What a function reads from the outside world is an argument: the clock
  (\<open>Date.now()\<close> in milliseconds, the locale strings of the current time and date),
  the value of \<open>Math.floor(Math.random() * 100)\<close>, which lies in 0..99, and the answer
  to the \<open>confirm\<close> dialog. The page elements the functions paint are left out; an
  \<open>alert\<close> is part of a function's result where a claim speaks of it.
\<close>

datatype product_type = fragrance | medication | produce | energy

record product =
  p_name :: string
  p_price :: nat
  p_retailer :: string
  p_retailerAddress :: string
  p_supplier :: string
  p_supplierAddress :: string
  p_tokenIdPrefix :: string
  p_category :: string
  p_icon :: string
  p_carbonFootprint :: "string option"
  p_certification :: "string option"

definition eclat_de_lune :: string where
  "eclat_de_lune = [CHR 0xC3, CHR 0x89] @ ''clat de Lune''"

definition low_carbon :: string where
  "low_carbon = ''Low (35g CO'' @ [CHR 0xE2, CHR 0x82, CHR 0x82] @ ''/kWh)''"

fun productInfo :: "product_type \<Rightarrow> product" where
  "productInfo fragrance =
     \<lparr> p_name = eclat_de_lune, p_price = 50,
       p_retailer = ''Scent & Soul Boutique'', p_retailerAddress = ''0xU...rah5r'',
       p_supplier = ''L'' @ [CHR 0x27, CHR 0xC3, CHR 0x89] @ ''clat des Cieux'',
       p_supplierAddress = ''addr1...RvT5'', p_tokenIdPrefix = ''#LUX-'',
       p_category = ''Luxury Fragrance'', p_icon = ''fas fa-gem'',
       p_carbonFootprint = None, p_certification = None \<rparr>"
| "productInfo medication =
     \<lparr> p_name = ''Amoxiclav-Duo'', p_price = 10,
       p_retailer = ''TrustCare Pharmacy'', p_retailerAddress = ''0xU...ph4rm'',
       p_supplier = ''VitaSure Pharmaceuticals'',
       p_supplierAddress = ''addr1...Ph8K'', p_tokenIdPrefix = ''#PH-'',
       p_category = ''Sensitive Medication'', p_icon = ''fas fa-prescription-bottle'',
       p_carbonFootprint = None, p_certification = None \<rparr>"
| "productInfo produce =
     \<lparr> p_name = ''Royal Purple Eggplants'', p_price = 5,
       p_retailer = ''Farmers'' @ [CHR 0x27] @ '' Fresh Market'',
       p_retailerAddress = ''0xU...m4rkT'',
       p_supplier = ''GreenRoots Organic Farm'',
       p_supplierAddress = ''addr1...Gr3F'', p_tokenIdPrefix = ''#ORG-'',
       p_category = ''Organic Produce'', p_icon = ''fas fa-seedling'',
       p_carbonFootprint = None, p_certification = None \<rparr>"
| "productInfo energy =
     \<lparr> p_name = ''EcoGrid Power Inverter'', p_price = 150,
       p_retailer = ''GreenTech Solutions'', p_retailerAddress = ''0xU...Gr3nT'',
       p_supplier = ''EcoVolt Technologies'',
       p_supplierAddress = ''addr1...Ec0V'', p_tokenIdPrefix = ''#ECO-'',
       p_category = ''Renewable Energy Component'', p_icon = ''fas fa-solar-panel'',
       p_carbonFootprint = Some low_carbon,
       p_certification = Some ''Carbon Neutral Certified'' \<rparr>"

record token =
  tk_id :: string
  tk_product :: string
  tk_retailer :: string
  tk_category :: string
  tk_purchaseDate :: string
  tk_purchaseTime :: string
  tk_burnLockDate :: int
  tk_price :: nat
  tk_icon :: string
  tk_certification :: "string option"
  tk_carbonFootprint :: "string option"

datatype tx_kind = mint | payment | transfer | burn

text \<open>
  A ledger entry. \<open>tx_id\<close> is the property \<open>id\<close> that \<open>addTransaction\<close> writes; an
  object passed to it has no \<open>id\<close> yet, and whatever \<open>tx_id\<close> holds then is
  overwritten. An absent \<open>timestamp\<close> is the empty string.
\<close>

record transaction =
  tx_id :: nat
  tx_type :: tx_kind
  tx_product :: string
  tx_from :: string
  tx_to :: string
  tx_tokenId :: "string option"
  tx_amount :: "string option"
  tx_timestamp :: string
  tx_certification :: "string option"
  tx_carbonFootprint :: "string option"

record app_state =
  balance :: int
  currentProduct :: "product_type option"
  transactionCounter :: nat
  ownedTokens :: "token list"
  transactions :: "transaction list"
  privacyEnabled :: bool
  purchaseInProgress :: bool

definition appState :: app_state where
  "appState =
     \<lparr> balance = 200, currentProduct = None, transactionCounter = 0,
       ownedTokens = [], transactions = [],
       privacyEnabled = False, purchaseInProgress = False \<rparr>"

record env =
  now :: int
  time_str :: string
  date_str :: string
  random100 :: nat
  confirm_answer :: bool

text \<open>One day in milliseconds, the unit of \<open>Date.now()\<close>.\<close>

definition day_ms :: int where
  "day_ms = 24 * 60 * 60 * 1000"

subsection \<open>The demo application: the ledger\<close>

text \<open>
  \<^verbatim>\<open>addTransaction(tx)\<close>: the entry takes the counter as its id, the counter is
  incremented, a missing timestamp is filled in, and the entry is put at the front of
  the ledger (\<open>unshift\<close>). The counter is a JavaScript number; it counts exactly as long
  as it stays below \<open>2^53\<close>, far beyond the length an array can have.
\<close>

definition addTransaction :: "string \<Rightarrow> transaction \<Rightarrow> app_state \<Rightarrow> app_state" where
  "addTransaction clock tx s =
     s \<lparr> transactionCounter := transactionCounter s + 1,
         transactions :=
           tx \<lparr> tx_id := transactionCounter s,
                tx_timestamp := (if tx_timestamp tx \<noteq> [] then tx_timestamp tx else clock) \<rparr>
           # transactions s \<rparr>"

definition initial_tx ::
  "tx_kind \<Rightarrow> string \<Rightarrow> string \<Rightarrow> string \<Rightarrow> string \<Rightarrow> string \<Rightarrow> transaction" where
  "initial_tx kind product_name sender recipient tokenId ts =
     \<lparr> tx_id = 0, tx_type = kind, tx_product = product_name, tx_from = sender,
       tx_to = recipient, tx_tokenId = Some tokenId, tx_amount = None, tx_timestamp = ts,
       tx_certification = None, tx_carbonFootprint = None \<rparr>"

definition initialMints :: "transaction list" where
  "initialMints =
     [initial_tx mint eclat_de_lune ''addr1...RvT5'' ''Factory Mint'' ''#LUX-001'' ''2 days ago'',
      initial_tx mint ''Amoxiclav-Duo'' ''addr1...Ph8K'' ''Factory Mint'' ''#PH-001'' ''1 day ago'',
      initial_tx mint ''Royal Purple Eggplants'' ''addr1...Gr3F'' ''Factory Mint'' ''#ORG-001''
        ''3 days ago'',
      (initial_tx mint ''EcoGrid Power Inverter'' ''addr1...Ec0V'' ''Factory Mint'' ''#ECO-001''
        ''4 days ago'') \<lparr> tx_carbonFootprint := Some low_carbon \<rparr>]"

definition initialTransfers :: "transaction list" where
  "initialTransfers =
     [initial_tx transfer eclat_de_lune ''addr1...RvT5'' ''0xU...rah5r'' ''#LUX-001'' ''1 day ago'',
      initial_tx transfer ''Amoxiclav-Duo'' ''addr1...Ph8K'' ''0xU...ph4rm'' ''#PH-001''
        ''Yesterday'',
      initial_tx transfer ''Royal Purple Eggplants'' ''addr1...Gr3F'' ''0xU...m4rkT'' ''#ORG-001''
        ''2 days ago'',
      (initial_tx transfer ''EcoGrid Power Inverter'' ''addr1...Ec0V'' ''0xU...Gr3nT'' ''#ECO-001''
        ''2 days ago'') \<lparr> tx_certification := Some ''Carbon Neutral Certified'' \<rparr>]"

definition loadInitialTransactions :: "string \<Rightarrow> app_state \<Rightarrow> app_state" where
  "loadInitialTransactions clock s =
     fold (addTransaction clock) initialTransfers (fold (addTransaction clock) initialMints s)"

subsection \<open>The demo application: purchase\<close>

definition openPurchaseModal :: "product_type \<Rightarrow> app_state \<Rightarrow> app_state" where
  "openPurchaseModal productType s = s \<lparr> currentProduct := Some productType \<rparr>"

definition closeModal :: "app_state \<Rightarrow> app_state" where
  "closeModal s = s \<lparr> purchaseInProgress := False \<rparr>"

definition togglePrivacy :: "app_state \<Rightarrow> app_state" where
  "togglePrivacy s = s \<lparr> privacyEnabled := \<not> privacyEnabled s \<rparr>"

text \<open>
  \<^verbatim>\<open>verifyRetailerAddress(address, product)\<close>. The trusted directory is one list for
  all products. An address outside it raises the error alert and the function returns;
  an address in it that is not the product's retailer raises a warning, the product's own
  retailer a success message, and in both cases the payment is recorded.
\<close>

definition trustedAddresses :: "string list" where
  "trustedAddresses = [''0xU...rah5r'', ''0xU...ph4rm'', ''0xU...m4rkT'', ''0xU...Gr3nT'']"

datatype address_alert = AlertError | AlertWarning | AlertSuccess

definition verifyRetailerAddress ::
  "string \<Rightarrow> string \<Rightarrow> product \<Rightarrow> app_state \<Rightarrow> address_alert \<times> app_state" where
  "verifyRetailerAddress clock address product s =
     (if address \<notin> set trustedAddresses then (AlertError, s)
      else
        (if address \<noteq> p_retailerAddress product then AlertWarning else AlertSuccess,
         addTransaction clock
           \<lparr> tx_id = 0, tx_type = payment, tx_product = p_name product,
             tx_from = ''bc1q...demo'', tx_to = address,
             tx_tokenId = None,
             tx_amount = Some (to_string_radix 10 (p_price product) @ '' DLLR''),
             tx_timestamp = clock,
             tx_certification = None, tx_carbonFootprint = None \<rparr> s))"

text \<open>
  \<^verbatim>\<open>confirmReceipt()\<close>: nothing happens without a current product; otherwise the
  price is taken from the balance, a token with a random three-digit number and a burn
  lock 14 days ahead is pushed to the collection, the transfer is recorded and the modal
  closed.
\<close>

definition when_truthy :: "string option \<Rightarrow> string option" where
  "when_truthy x = (case x of None \<Rightarrow> None | Some v \<Rightarrow> if v \<noteq> [] then Some v else None)"

definition confirmReceipt :: "env \<Rightarrow> app_state \<Rightarrow> app_state" where
  "confirmReceipt e s =
     (case currentProduct s of
        None \<Rightarrow> s
      | Some productType \<Rightarrow>
          (let product = productInfo productType;
               tokenNumber = random100 e + 1;
               tokenId = p_tokenIdPrefix product
                         @ padStart 3 (CHR ''0'') (to_string_radix 10 tokenNumber);
               s1 = s \<lparr> balance := balance s - int (p_price product) \<rparr>;
               token =
                 \<lparr> tk_id = tokenId,
                   tk_product = p_name product,
                   tk_retailer = p_retailer product,
                   tk_category = p_category product,
                   tk_purchaseDate = date_str e,
                   tk_purchaseTime = time_str e,
                   tk_burnLockDate = now e + 14 * 24 * 60 * 60 * 1000,
                   tk_price = p_price product,
                   tk_icon = (if p_icon product \<noteq> [] then p_icon product else ''fas fa-tag''),
                   tk_certification = when_truthy (p_certification product),
                   tk_carbonFootprint = when_truthy (p_carbonFootprint product) \<rparr>;
               s2 = s1 \<lparr> ownedTokens := ownedTokens s1 @ [token] \<rparr>;
               s3 = addTransaction (time_str e)
                      \<lparr> tx_id = 0, tx_type = transfer, tx_product = p_name product,
                        tx_from = p_retailerAddress product, tx_to = ''bc1q...demo'',
                        tx_tokenId = Some tokenId, tx_amount = None,
                        tx_timestamp = time_str e,
                        tx_certification = p_certification product,
                        tx_carbonFootprint = p_carbonFootprint product \<rparr> s2
           in closeModal s3))"

subsection \<open>The demo application: tokens\<close>

text \<open>\<open>Array.prototype.findIndex\<close>: the first position whose element passes the test.\<close>

fun findIndex :: "('a \<Rightarrow> bool) \<Rightarrow> 'a list \<Rightarrow> nat option" where
  "findIndex P [] = None"
| "findIndex P (x # xs) = (if P x then Some 0 else map_option Suc (findIndex P xs))"

text \<open>
  \<^verbatim>\<open>showTokenDetails(tokenId)\<close> alerts either \<open>Token not found.\<close> or the details of
  the token it found (\<open>Inr\<close> carries the token whose fields the alert prints).
\<close>

definition showTokenDetails :: "string \<Rightarrow> app_state \<Rightarrow> string + token" where
  "showTokenDetails tokenId s =
     (case find (\<lambda>t. tk_id t = tokenId) (ownedTokens s) of
        None \<Rightarrow> Inl ''Token not found.''
      | Some token \<Rightarrow> Inr token)"

text \<open>
  \<^verbatim>\<open>burnToken(tokenId)\<close> ends in one of four ways: the alert \<open>Token not found.\<close>;
  the alert that the token is locked for the warranty/refund period; the user declining
  the \<open>confirm\<close> dialog; or the burn, which records the burn transaction, removes the
  token from the collection with \<open>splice(tokenIndex, 1)\<close> and alerts the success.
\<close>

datatype burn_outcome = TokenNotFound | WithinLockPeriod | BurnDeclined | TokenBurned

definition burn_tx :: "env \<Rightarrow> string \<Rightarrow> token \<Rightarrow> transaction" where
  "burn_tx e tokenId token =
     \<lparr> tx_id = 0, tx_type = burn, tx_product = tk_product token,
       tx_from = ''bc1q...demo'', tx_to = ''addr1...daf4w (Burn Address)'',
       tx_tokenId = Some tokenId, tx_amount = None,
       tx_timestamp = time_str e,
       tx_certification = None, tx_carbonFootprint = None \<rparr>"

definition burnToken :: "env \<Rightarrow> string \<Rightarrow> app_state \<Rightarrow> burn_outcome \<times> app_state" where
  "burnToken e tokenId s =
     (case findIndex (\<lambda>t. tk_id t = tokenId) (ownedTokens s) of
        None \<Rightarrow> (TokenNotFound, s)
      | Some tokenIndex \<Rightarrow>
          (let token = ownedTokens s ! tokenIndex;
               lockDate = tk_burnLockDate token
           in if now e < lockDate then (WithinLockPeriod, s)
              else if \<not> confirm_answer e then (BurnDeclined, s)
              else
                (let s1 = addTransaction (time_str e) (burn_tx e tokenId token) s
                 in (TokenBurned,
                     s1 \<lparr> ownedTokens :=
                            take tokenIndex (ownedTokens s1)
                            @ drop (Suc tokenIndex) (ownedTokens s1) \<rparr>))))"

subsection \<open>The demo application as a transition system\<close>

text \<open>
  The functions that write \<open>appState\<close>, as the operations a user of the page can
  trigger. A state is reachable when it arises from the initial \<open>appState\<close> by any
  sequence of operations, under any clock, random numbers and dialog answers.
\<close>

datatype operation =
    LoadInitialTransactions
  | OpenPurchaseModal product_type
  | CloseModal
  | VerifyRetailerAddress string product
  | ConfirmReceipt
  | BurnToken string
  | TogglePrivacy

fun step :: "env \<Rightarrow> operation \<Rightarrow> app_state \<Rightarrow> app_state" where
  "step e LoadInitialTransactions s = loadInitialTransactions (time_str e) s"
| "step e (OpenPurchaseModal productType) s = openPurchaseModal productType s"
| "step e CloseModal s = closeModal s"
| "step e (VerifyRetailerAddress address product) s =
     snd (verifyRetailerAddress (time_str e) address product s)"
| "step e ConfirmReceipt s = confirmReceipt e s"
| "step e (BurnToken tokenId) s = snd (burnToken e tokenId s)"
| "step e TogglePrivacy s = togglePrivacy s"

inductive reachable :: "app_state \<Rightarrow> bool" where
  reachable_init: "reachable appState"
| reachable_step: "reachable s \<Longrightarrow> reachable (step e op s)"

text \<open>
  The state after a sequence of operations, each with what it reads from the outside
  world: the steps are taken one after the other, from the first to the last.
\<close>

abbreviation run :: "(env \<times> operation) list \<Rightarrow> app_state \<Rightarrow> app_state" where
  "run ops s \<equiv> fold (\<lambda>(e, op). step e op) ops s"

text \<open>
  The operations that put a token id into circulation: a purchase issues the id that
  \<open>confirmReceipt\<close> composes from the prefix of the current product and the random
  number, and the initial listing names the four ids \<open>...-001\<close>.
  \<open>issues tokenId e op s\<close> says that operation \<open>op\<close>, run in state \<open>s\<close>, brings
  up \<open>tokenId\<close> in this way, \<open>never_issued tokenId ops s\<close> that no operation of
  the sequence does.
\<close>

definition issued_id :: "env \<Rightarrow> app_state \<Rightarrow> string option" where
  "issued_id e s =
     map_option
       (\<lambda>productType. p_tokenIdPrefix (productInfo productType)
                       @ padStart 3 (CHR ''0'') (to_string_radix 10 (random100 e + 1)))
       (currentProduct s)"

fun issues :: "string \<Rightarrow> env \<Rightarrow> operation \<Rightarrow> app_state \<Rightarrow> bool" where
  "issues tokenId e ConfirmReceipt s = (issued_id e s = Some tokenId)"
| "issues tokenId e LoadInitialTransactions s =
     (Some tokenId \<in> set (map tx_tokenId (initialMints @ initialTransfers)))"
| "issues tokenId e op s = False"

fun never_issued :: "string \<Rightarrow> (env \<times> operation) list \<Rightarrow> app_state \<Rightarrow> bool" where
  "never_issued tokenId [] s = True"
| "never_issued tokenId ((e, op) # rest) s =
     (\<not> issues tokenId e op s \<and> never_issued tokenId rest (step e op s))"

subsection \<open>The ledger's invariant\<close>

text \<open>
  \<open>extends s s'\<close>: the ledger of \<open>s'\<close> is the ledger of \<open>s\<close> with new entries in
  front, numbered upwards from the counter of \<open>s\<close>. The invariant: the ids in the
  ledger are, newest first, exactly the numbers below the counter.
\<close>

definition extends :: "app_state \<Rightarrow> app_state \<Rightarrow> bool" where
  "extends s s' =
     (\<exists>new. transactions s' = new @ transactions s
        \<and> transactionCounter s' = transactionCounter s + length new
        \<and> map tx_id new = rev [transactionCounter s ..< transactionCounter s + length new])"

definition ledger_invariant :: "app_state \<Rightarrow> bool" where
  "ledger_invariant s =
     (map tx_id (transactions s) = rev [0 ..< transactionCounter s])"

subsection \<open>Sample data\<close>

text \<open>Concrete inputs on which the theorems below are evaluated.\<close>

definition history_sample :: jvalue where
  "history_sample =
     JArr [JObj [(''type'', JStr ''transfer''),
                 (''from_address'', JStr ''bc1q...demo''),
                 (''details'', JObj [(''email'', JStr ''a@b.c''), (''batch'', JNum 7)])]]"

definition response_sample :: jvalue where
  "response_sample = JObj [(''product_id'', JStr ''#LUX-001''), (''history'', history_sample)]"

definition failing_prover :: prover where
  "failing_prover = (\<lambda>dataHash rawData. Inl ''prover unavailable'')"

text \<open>
  Stand-ins for hash components that accept whatever they are wired to. They only
  serve to show a theorem about a circuit with a witness on an instance.
\<close>

definition accepting_sha :: "nat \<Rightarrow> nat \<Rightarrow> nat list option" where
  "accepting_sha a b = Some (replicate 256 0)"

definition accepting_pedersen :: "nat \<Rightarrow> nat \<Rightarrow> nat option" where
  "accepting_pedersen a b = Some 0"

definition circuit_sample :: "nat \<Rightarrow> nat \<Rightarrow> nat \<Rightarrow> circuit_inputs" where
  "circuit_sample current minted warranty =
     \<lparr> verificationHash = 0, manufacturerPublicKey = 0, currentTimestamp = current,
       productId = 0, ownerPrivateKey = 0, mintTimestamp = minted,
       warrantyPeriod = warranty, supplyChainHash = 0 \<rparr>"

definition env_sample :: "int \<Rightarrow> env" where
  "env_sample t =
     \<lparr> now = t, time_str = ''10:00 AM'', date_str = ''1/1/2026'', random100 = 4,
       confirm_answer = True \<rparr>"

definition bought_state :: app_state where
  "bought_state = confirmReceipt (env_sample 0) (openPurchaseModal fragrance appState)"

definition sample_token :: token where
  "sample_token =
     \<lparr> tk_id = ''#LUX-005'', tk_product = eclat_de_lune,
       tk_retailer = ''Scent & Soul Boutique'', tk_category = ''Luxury Fragrance'',
       tk_purchaseDate = ''1/1/2026'', tk_purchaseTime = ''10:00 AM'',
       tk_burnLockDate = 14 * day_ms, tk_price = 50, tk_icon = ''fas fa-gem'',
       tk_certification = None, tk_carbonFootprint = None \<rparr>"

definition burned_state :: app_state where
  "burned_state = snd (burnToken (env_sample (15 * day_ms)) ''#LUX-005'' bought_state)"

text \<open>
  A second purchase of the fragrance on day 5 that draws the same random number, and a
  purchase after the burn that draws it again.
\<close>

definition twice_bought_state :: app_state where
  "twice_bought_state = confirmReceipt (env_sample (5 * day_ms)) bought_state"

definition rebought_state :: app_state where
  "rebought_state = confirmReceipt (env_sample (16 * day_ms)) burned_state"

definition proto_sample :: jvalue where
  "proto_sample = JObj [(''__proto__'', JStr ''x''), (''type'', JStr ''mint'')]"

section \<open>Theorems\<close>

subsection \<open>The privacy shield: field names and redaction\<close>

lemma take_eq_prefix: "(take (length needle) hay = needle) = prefix needle hay"
  by (metis append_eq_conv_conj prefix_def take_is_prefix)

lemma str_includes_sublist: "str_includes hay needle = sublist needle hay"
  by (induction hay) (auto simp: sublist_Cons_right take_eq_prefix simp del: take_Suc_Cons)

lemma isSensitiveField_iff:
  assumes "map toLowerCase sensitiveFields =
     [''privatekey'', ''secret'', ''password'', ''pin'',
      ''address'', ''email'', ''phone'', ''ssn'', ''dob'']"
  shows "isSensitiveField toLowerCase k =
     (sublist ''privatekey'' (toLowerCase k) \<or> sublist ''secret'' (toLowerCase k) \<or>
      sublist ''password'' (toLowerCase k) \<or> sublist ''pin'' (toLowerCase k) \<or>
      sublist ''address'' (toLowerCase k) \<or> sublist ''email'' (toLowerCase k) \<or>
      sublist ''phone'' (toLowerCase k) \<or> sublist ''ssn'' (toLowerCase k) \<or>
      sublist ''dob'' (toLowerCase k))"
proof -
  have "isSensitiveField toLowerCase k =
          list_ex (\<lambda>l. sublist l (toLowerCase k)) (map toLowerCase sensitiveFields)"
    by (simp add: isSensitiveField_def str_includes_sublist list_ex_iff)
  then show ?thesis
    by (simp add: assms)
qed

text \<open>The ASCII function meets what the theorems ask of the library function.\<close>

lemma ascii_lowered_sensitiveFields:
  "map ascii_toLowerCase sensitiveFields =
     [''privatekey'', ''secret'', ''password'', ''pin'',
      ''address'', ''email'', ''phone'', ''ssn'', ''dob'']"
  by code_simp

lemma ascii_lowered_proto: "ascii_toLowerCase ''__proto__'' = ''__proto__''"
  by code_simp

lemma map_of_view:
  "map_of (map (\<lambda>(key, v). if \<not> P key then (key, f v) else (key, m))
             (filter (\<lambda>(key, v). key \<noteq> q) es)) k =
     (if k = q then None else map_option (\<lambda>v. if P k then m else f v) (map_of es k))"
proof -
  have eq: "(\<lambda>(key, v). if \<not> P key then (key, f v) else (key, m))
            = (\<lambda>(key, v). (key, if P key then m else f v))"
    by (auto simp: fun_eq_iff)
  show ?thesis
    unfolding eq by (induction es) auto
qed









lemma proto_not_sensitive:
  assumes "map toLowerCase sensitiveFields =
     [''privatekey'', ''secret'', ''password'', ''pin'',
      ''address'', ''email'', ''phone'', ''ssn'', ''dob'']"
    and "toLowerCase ''__proto__'' = ''__proto__''"
  shows "\<not> isSensitiveField toLowerCase ''__proto__''"
proof -
  have "\<not> (sublist ''privatekey'' ''__proto__'' \<or> sublist ''secret'' ''__proto__'' \<or>
      sublist ''password'' ''__proto__'' \<or> sublist ''pin'' ''__proto__'' \<or>
      sublist ''address'' ''__proto__'' \<or> sublist ''email'' ''__proto__'' \<or>
      sublist ''phone'' ''__proto__'' \<or> sublist ''ssn'' ''__proto__'' \<or>
      sublist ''dob'' ''__proto__'')"
    by code_simp
  then show ?thesis
    by (simp only: isSensitiveField_iff[OF assms(1)] assms(2) simp_thms)
qed

text \<open>
  Claim C10. \<open>toLowerCase\<close> is the library function; what is used of it is that it
  turns the nine entries of the list into \<open>privatekey\<close>, \<open>secret\<close>, \<open>password\<close>,
  \<open>pin\<close>, \<open>address\<close>, \<open>email\<close>, \<open>phone\<close>, \<open>ssn\<close>, \<open>dob\<close> and leaves
  \<open>__proto__\<close> as it is. Then a field is sensitive exactly when its lowercased name
  contains one of the nine strings; in particular every name whose lowercased form
  contains \<open>address\<close> is, and \<open>__proto__\<close> is not. In the extracted object each
  sensitive key holds the string \<open>[REDACTED]\<close> whatever its value was (an object is
  replaced as a whole, not entered), each other key holds the extraction of its value,
  only that the key \<open>__proto__\<close>, which the assignment does not create, is absent;
  and an array is extracted element by element.
\<close>

theorem sensitive_field_redaction:
  assumes "map toLowerCase sensitiveFields =
     [''privatekey'', ''secret'', ''password'', ''pin'',
      ''address'', ''email'', ''phone'', ''ssn'', ''dob'']"
    and "toLowerCase ''__proto__'' = ''__proto__''"
  shows "isSensitiveField toLowerCase k =
     (sublist ''privatekey'' (toLowerCase k) \<or> sublist ''secret'' (toLowerCase k) \<or>
      sublist ''password'' (toLowerCase k) \<or> sublist ''pin'' (toLowerCase k) \<or>
      sublist ''address'' (toLowerCase k) \<or> sublist ''email'' (toLowerCase k) \<or>
      sublist ''phone'' (toLowerCase k) \<or> sublist ''ssn'' (toLowerCase k) \<or>
      sublist ''dob'' (toLowerCase k))
   \<and> (sublist ''address'' (toLowerCase k) \<longrightarrow> isSensitiveField toLowerCase k)
   \<and> \<not> isSensitiveField toLowerCase ''__proto__''
   \<and> extractPublicData toLowerCase (JObj entries) =
       JObj (map (\<lambda>(key, v). (key, if isSensitiveField toLowerCase key then JStr ''[REDACTED]''
                                     else extractPublicData toLowerCase v))
              (filter (\<lambda>(key, v). key \<noteq> ''__proto__'') entries))
   \<and> get_path (extractPublicData toLowerCase (JObj entries)) [Key k] =
       (if k = ''__proto__'' then None
        else map_option (\<lambda>v. if isSensitiveField toLowerCase k then JStr ''[REDACTED]''
                              else extractPublicData toLowerCase v)
               (map_of entries k))
   \<and> (isSensitiveField toLowerCase k \<and> map_of entries k = Some v \<longrightarrow>
        get_path (extractPublicData toLowerCase (JObj entries)) [Key k]
          = Some (JStr ''[REDACTED]''))
   \<and> extractPublicData toLowerCase (JArr items)
       = JArr (map (extractPublicData toLowerCase) items)"
proof (intro conjI impI)
  show iff: "isSensitiveField toLowerCase k =
     (sublist ''privatekey'' (toLowerCase k) \<or> sublist ''secret'' (toLowerCase k) \<or>
      sublist ''password'' (toLowerCase k) \<or> sublist ''pin'' (toLowerCase k) \<or>
      sublist ''address'' (toLowerCase k) \<or> sublist ''email'' (toLowerCase k) \<or>
      sublist ''phone'' (toLowerCase k) \<or> sublist ''ssn'' (toLowerCase k) \<or>
      sublist ''dob'' (toLowerCase k))"
    using assms(1) by (rule isSensitiveField_iff)
  show "isSensitiveField toLowerCase k" if "sublist ''address'' (toLowerCase k)"
    using that by (simp only: iff simp_thms)
  show np: "\<not> isSensitiveField toLowerCase ''__proto__''"
    using assms by (rule proto_not_sensitive)
  show "extractPublicData toLowerCase (JObj entries) =
       JObj (map (\<lambda>(key, v). (key, if isSensitiveField toLowerCase key then JStr ''[REDACTED]''
                                     else extractPublicData toLowerCase v))
              (filter (\<lambda>(key, v). key \<noteq> ''__proto__'') entries))"
    by auto
  show path: "get_path (extractPublicData toLowerCase (JObj entries)) [Key k] =
       (if k = ''__proto__'' then None
        else map_option (\<lambda>v. if isSensitiveField toLowerCase k then JStr ''[REDACTED]''
                              else extractPublicData toLowerCase v)
               (map_of entries k))"
    by (auto simp: map_of_view split: option.splits)
  show "get_path (extractPublicData toLowerCase (JObj entries)) [Key k]
          = Some (JStr ''[REDACTED]'')"
    if "isSensitiveField toLowerCase k \<and> map_of entries k = Some v"
  proof -
    from that np have "k \<noteq> ''__proto__''" by auto
    with that show ?thesis by (simp only: path) simp
  qed
  show "extractPublicData toLowerCase (JArr items)
       = JArr (map (extractPublicData toLowerCase) items)"
    by simp
qed

lemma sample_keys:
  "isSensitiveField ascii_toLowerCase ''from_address''"
  "isSensitiveField ascii_toLowerCase ''email''"
  "isSensitiveField ascii_toLowerCase ''Shipping_Address''"
  "\<not> isSensitiveField ascii_toLowerCase ''details''"
  "\<not> isSensitiveField ascii_toLowerCase ''batch''"
  "\<not> isSensitiveField ascii_toLowerCase ''type''"
  "\<not> isSensitiveField ascii_toLowerCase ''__proto__''"
  by code_simp+

theorem sensitive_field_redaction_witness:
  "map ascii_toLowerCase sensitiveFields =
     [''privatekey'', ''secret'', ''password'', ''pin'',
      ''address'', ''email'', ''phone'', ''ssn'', ''dob'']
   \<and> ascii_toLowerCase ''__proto__'' = ''__proto__''
   \<and> sublist ''address'' (ascii_toLowerCase ''Shipping_Address'')
   \<and> isSensitiveField ascii_toLowerCase ''Shipping_Address''
   \<and> map_of [(''Shipping_Address'', JObj [(''street'', JStr ''1 Main St'')]),
              (''type'', JStr ''transfer'')] ''Shipping_Address''
       = Some (JObj [(''street'', JStr ''1 Main St'')])
   \<and> get_path (extractPublicData ascii_toLowerCase
         (JObj [(''Shipping_Address'', JObj [(''street'', JStr ''1 Main St'')]),
                (''type'', JStr ''transfer'')])) [Key ''Shipping_Address'']
       = Some (JStr ''[REDACTED]'')"
proof -
  have a: "sublist ''address'' (ascii_toLowerCase ''Shipping_Address'')" by code_simp
  have b: "map_of [(''Shipping_Address'', JObj [(''street'', JStr ''1 Main St'')]),
              (''type'', JStr ''transfer'')] ''Shipping_Address''
       = Some (JObj [(''street'', JStr ''1 Main St'')])"
    by simp
  note t = sensitive_field_redaction [OF ascii_lowered_sensitiveFields ascii_lowered_proto,
      of "''Shipping_Address''"
         "[(''Shipping_Address'', JObj [(''street'', JStr ''1 Main St'')]),
           (''type'', JStr ''transfer'')]"
         "JObj [(''street'', JStr ''1 Main St'')]"]
  have c: "isSensitiveField ascii_toLowerCase ''Shipping_Address''"
    using t [THEN conjunct2, THEN conjunct1, rule_format, OF a] .
  have d: "get_path (extractPublicData ascii_toLowerCase
         (JObj [(''Shipping_Address'', JObj [(''street'', JStr ''1 Main St'')]),
                (''type'', JStr ''transfer'')])) [Key ''Shipping_Address'']
       = Some (JStr ''[REDACTED]'')"
    using t [THEN conjunct2, THEN conjunct2, THEN conjunct2, THEN conjunct2,
        THEN conjunct2, THEN conjunct1, rule_format, OF conjI, OF c b] .
  from a b c d ascii_lowered_sensitiveFields ascii_lowered_proto show ?thesis
    by (simp only: simp_thms)
qed


lemma extract_proto_sample:
  "extractPublicData ascii_toLowerCase proto_sample = JObj [(''type'', JStr ''mint'')]"
  by (simp add: proto_sample_def sample_keys)





subsection \<open>The privacy shield: the fallback\<close>

lemma assign_same: "map_of es k = Some v \<Longrightarrow> assign k v es = es"
  by (induction es) (auto split: if_splits)

lemma shield_fallback:
  "generateProof (hashData stringify data) data = Inl err \<Longrightarrow>
   applyPrivacyShield toLowerCase stringify generateProof data =
     (data, [ConsoleWarn ''ZK privacy shield failed, falling back to plain data:''])"
  by (simp add: applyPrivacyShield_def)

text \<open>
  Claim C4, as stated, fails: with a failing prover the shield returns the history as it
  was given, and the response that \<open>getSupplyChainHistory\<close> returns is the
  response it received. It carries no field \<open>privacyApplied\<close> (nor
  \<open>privacy_applied\<close>) and still shows the sender's address; the one trace of the
  fallback is the console warning.
\<close>

theorem shield_fallback_sets_no_flag:
  "applyPrivacyShield ascii_toLowerCase (\<lambda>d. []) failing_prover history_sample
     = (history_sample, [ConsoleWarn ''ZK privacy shield failed, falling back to plain data:''])
   \<and> getSupplyChainHistory ascii_toLowerCase (\<lambda>d. []) failing_prover []
        (Inr response_sample) True
     = (Inr response_sample,
        [ConsoleWarn ''ZK privacy shield failed, falling back to plain data:''])
   \<and> get_path response_sample [Key ''privacyApplied''] = None
   \<and> get_path response_sample [Key ''privacy_applied''] = None
   \<and> get_path response_sample [Key ''history'', Idx 0, Key ''from_address'']
       = Some (JStr ''bc1q...demo'')"
  by (simp add: applyPrivacyShield_def getSupplyChainHistory_def failing_prover_def
        response_sample_def history_sample_def)

text \<open>
  Claim C4, amended. Whenever the prover fails, \<open>applyPrivacyShield\<close> returns the
  plain data it was given and writes a console warning, and
  \<open>getSupplyChainHistory\<close> in privacy mode returns the response unchanged: no
  flag is added to it.
\<close>

theorem privacy_shield_fallback:
  assumes "generateProof (hashData stringify history) history = Inl err"
  shows "applyPrivacyShield toLowerCase stringify generateProof history
           = (history, [ConsoleWarn ''ZK privacy shield failed, falling back to plain data:''])
         \<and> (map_of entries ''history'' = Some history \<and> truthy history \<longrightarrow>
              getSupplyChainHistory toLowerCase stringify generateProof nullMessage
                  (Inr (JObj entries)) True
                = (Inr (JObj entries),
                   [ConsoleWarn ''ZK privacy shield failed, falling back to plain data:'']))"
  using assms
  by (auto simp: applyPrivacyShield_def getSupplyChainHistory_def assign_same)

theorem privacy_shield_fallback_witness:
  "failing_prover (hashData (\<lambda>d. []) history_sample) history_sample = Inl ''prover unavailable''
   \<and> map_of [(''product_id'', JStr ''#LUX-001''), (''history'', history_sample)] ''history''
       = Some history_sample
   \<and> truthy history_sample
   \<and> applyPrivacyShield ascii_toLowerCase (\<lambda>d. []) failing_prover history_sample
       = (history_sample, [ConsoleWarn ''ZK privacy shield failed, falling back to plain data:''])
   \<and> getSupplyChainHistory ascii_toLowerCase (\<lambda>d. []) failing_prover []
        (Inr (JObj [(''product_id'', JStr ''#LUX-001''), (''history'', history_sample)])) True
       = (Inr (JObj [(''product_id'', JStr ''#LUX-001''), (''history'', history_sample)]),
          [ConsoleWarn ''ZK privacy shield failed, falling back to plain data:''])"
proof -
  have a: "failing_prover (hashData (\<lambda>d. []) history_sample) history_sample
             = Inl ''prover unavailable''"
    by (simp add: failing_prover_def)
  have b: "map_of [(''product_id'', JStr ''#LUX-001''), (''history'', history_sample)] ''history''
             = Some history_sample"
    by simp
  have c: "truthy history_sample" by (simp add: history_sample_def)
  note t = privacy_shield_fallback [where generateProof = failing_prover
      and stringify = "\<lambda>d. []" and history = history_sample
      and err = "''prover unavailable''" and nullMessage = "[]"
      and toLowerCase = ascii_toLowerCase
      and entries = "[(''product_id'', JStr ''#LUX-001''), (''history'', history_sample)]"]
  from a b c t show ?thesis by blast
qed

subsection \<open>The circuit\<close>

lemma bit_sum_take_bit:
  "(\<Sum>i\<leftarrow>[0..<n]. (drop_bit i x AND 1) * 2 ^ i) = take_bit n (x::nat)"
proof (induction n)
  case 0
  then show ?case by simp
next
  case (Suc n)
  have "drop_bit n x AND 1 = of_bool (bit x n)"
    by (simp add: and_one_eq bit_iff_odd_drop_bit mod_2_eq_odd)
  with Suc show ?case
    by (simp add: take_bit_Suc_from_most)
qed

lemma nth_bits_sum:
  "(\<Sum>i\<leftarrow>[0..<n]. map f [0..<n] ! i * 2 ^ i) = (\<Sum>i\<leftarrow>[0..<n]. f i * (2::nat) ^ i)"
  by (rule arg_cong[where f = sum_list], rule map_cong) auto

lemma field_p_gt: "2 ^ 65 < field_p"
  by (simp add: field_p_def)

lemma fsub_less: "fsub a b < field_p"
  by (simp add: fsub_def field_p_def)

text \<open>\<open>Num2Bits(65)\<close> has a witness exactly for the signals below \<open>2^65\<close>.\<close>

lemma Num2Bits_65:
  assumes "x < field_p"
  shows "Num2Bits 65 x =
           (if x < 2 ^ 65 then Some (map (\<lambda>i. drop_bit i x AND 1) [0..<65]) else None)"
proof -
  have tb: "take_bit 65 x < field_p"
    using field_p_gt take_bit_nat_less_exp[of 65 x] by linarith
  have "(take_bit 65 x = x) = (x < 2 ^ 65)"
    by (simp add: take_bit_nat_eq_self_iff)
  with tb show ?thesis
    unfolding Num2Bits_def Let_def nth_bits_sum bit_sum_take_bit by simp
qed

lemma LessEqThan_64_eval:
  "LessEqThan 64 a b =
     (let x = fsub (fadd a (2 ^ 64)) (fadd b 1)
      in if x < 2 ^ 65 then Some (fsub 1 (x div 2 ^ 64)) else None)"
proof -
  define x where "x = fsub (fadd a (push_bit 64 1)) (fadd b 1)"
  have x': "fsub (fadd a (2 ^ 64)) (fadd b 1) = x"
    by (simp add: x_def push_bit_eq_mult)
  have lt: "x < field_p" unfolding x_def by (rule fsub_less)
  have nth: "map (\<lambda>i. drop_bit i x AND 1) [0..<65] ! 64 = drop_bit 64 x AND 1"
    by (simp del: upt_Suc)
  have small: "x < 2 ^ 65 \<Longrightarrow> drop_bit 64 x AND 1 = x div 2 ^ 64"
    by (simp add: drop_bit_eq_div and_one_eq)
  show ?thesis
    unfolding LessEqThan_def LessThan_def x_def[symmetric] x' Let_def
    using small by (auto simp: Num2Bits_65[OF lt] nth simp del: upt_Suc)
qed

text \<open>On 64-bit operands the comparator decides \<open>\<le>\<close>.\<close>

lemma LessEqThan_64:
  assumes "a < 2 ^ 64" "b < 2 ^ 64"
  shows "LessEqThan 64 a b = Some (if a \<le> b then 1 else 0)"
proof -
  have p: "2 ^ 65 < field_p" by (rule field_p_gt)
  have e: "(2::nat) ^ 65 = 2 * 2 ^ 64" by simp
  have s1: "fadd a (2 ^ 64) = a + 2 ^ 64" "fadd b 1 = b + 1"
    using assms p e by (simp_all add: fadd_def)
  have s2: "fsub (a + 2 ^ 64) (b + 1) = a + 2 ^ 64 - (b + 1)"
  proof -
    have "(b + 1) mod field_p = b + 1" using assms p e by simp
    moreover have "a + 2 ^ 64 + (field_p - (b + 1)) = field_p + (a + 2 ^ 64 - (b + 1))"
      using assms p e by linarith
    moreover have "a + 2 ^ 64 - (b + 1) < field_p" using assms p e by linarith
    ultimately show ?thesis by (simp add: fsub_def)
  qed
  define x where "x = a + 2 ^ 64 - (b + 1)"
  have xlt: "x < 2 ^ 65" using assms e by (simp add: x_def)
  have q: "x div 2 ^ 64 = (if a \<le> b then 0 else 1)"
  proof (cases "a \<le> b")
    case True
    then have "x < 2 ^ 64" using assms by (simp add: x_def)
    then show ?thesis using True by simp
  next
    case False
    then have "2 ^ 64 * 1 \<le> x" "x < 2 ^ 64 * Suc 1" using assms by (auto simp: x_def)
    then have "x div 2 ^ 64 = 1" by (rule div_nat_eqI)
    then show ?thesis using False by simp
  qed
  have f1: "fsub 1 0 = 1" "fsub 1 1 = 0"
    by (simp_all add: fsub_def field_p_def)
  show ?thesis
    unfolding LessEqThan_64_eval s1 s2 x_def[symmetric] Let_def
    using xlt q f1 by simp
qed

text \<open>
  With a 64-bit timestamp and a 64-bit expiry the comparator accepts, and the circuit
  has a witness exactly when both hash components have one.
\<close>

lemma ProductVerification_in_range:
  assumes "currentTimestamp inp < 2 ^ 64" "mintTimestamp inp + warrantyPeriod inp < 2 ^ 64"
  shows "ProductVerification sha pedersen inp =
           (case sha (productId inp) (mintTimestamp inp) of
              None \<Rightarrow> None
            | Some sha_out \<Rightarrow>
                (case pedersen (productId inp) (supplyChainHash inp) of
                   None \<Rightarrow> None
                 | Some pedersen_out \<Rightarrow>
                     Some \<lparr> isValid = 1,
                            isInWarranty =
                              (if currentTimestamp inp \<le> mintTimestamp inp + warrantyPeriod inp
                               then 1 else 0),
                            zkProofHash = pedersen_out \<rparr>))"
proof -
  have p: "2 ^ 65 < field_p" by (rule field_p_gt)
  have e: "(2::nat) ^ 65 = 2 * 2 ^ 64" by simp
  have "fadd (mintTimestamp inp) (warrantyPeriod inp) = mintTimestamp inp + warrantyPeriod inp"
    using assms p e by (simp add: fadd_def)
  then show ?thesis
    unfolding ProductVerification_def using LessEqThan_64[OF assms]
    by (simp split: option.splits)
qed

lemma ProductVerification_no_compare:
  "LessEqThan 64 (currentTimestamp inp) (fadd (mintTimestamp inp) (warrantyPeriod inp)) = None
   \<Longrightarrow> ProductVerification sha pedersen inp = None"
  by (simp add: ProductVerification_def split: option.splits)

lemma compare_sample_c: "LessEqThan 64 (field_p - 1) (fadd 0 0) = Some 1"
  by (simp add: LessEqThan_64_eval fsub_def fadd_def field_p_def)

text \<open>
  Claim C7, as stated, fails: not every assignment of the inputs gives \<open>isValid\<close> a
  value. With hash components that have no witness, which is the file as shipped, an
  ordinary assignment has no output. And with hash components that accept every input,
  the assignment \<open>currentTimestamp = 0\<close>, \<open>mintTimestamp = 2^64\<close>,
  \<open>warrantyPeriod = 0\<close> still has none: the comparator's constraint fails, so the
  circuit has no witness.
\<close>

theorem isValid_has_no_value:
  "ProductVerification (\<lambda>a b. None) (\<lambda>a b. None)
     (circuit_sample 1700000000 1699000000 1209600) = None
   \<and> map_option isValid
       (ProductVerification (\<lambda>a b. None) (\<lambda>a b. None)
          (circuit_sample 1700000000 1699000000 1209600)) \<noteq> Some 1
   \<and> ProductVerification accepting_sha accepting_pedersen (circuit_sample 0 (2 ^ 64) 0) = None
   \<and> map_option isValid
       (ProductVerification accepting_sha accepting_pedersen (circuit_sample 0 (2 ^ 64) 0))
       \<noteq> Some 1"
proof -
  have a: "ProductVerification (\<lambda>a b. None) (\<lambda>a b. None)
     (circuit_sample 1700000000 1699000000 1209600) = None"
    by (simp add: ProductVerification_def)
  have b: "ProductVerification accepting_sha accepting_pedersen (circuit_sample 0 (2 ^ 64) 0)
             = None"
    by (rule ProductVerification_no_compare)
      (simp add: circuit_sample_def LessEqThan_64_eval fsub_def fadd_def field_p_def)
  show ?thesis
    unfolding a b by simp
qed

text \<open>
  Claim C7, amended. Whatever the two hash components compute: whenever the circuit has a
  witness, its output \<open>isValid\<close> is 1; the inputs \<open>verificationHash\<close>,
  \<open>manufacturerPublicKey\<close> and \<open>ownerPrivateKey\<close> have no influence on whether
  there is a witness nor on any output; the circuit has no witness, and \<open>isValid\<close>
  no value, exactly when one of the hash components or the comparator rejects the
  signals it is wired to; and for \<open>currentTimestamp < 2^64\<close> and
  \<open>mintTimestamp + warrantyPeriod < 2^64\<close> the circuit has a witness, with
  \<open>isValid = 1\<close>, exactly when both hash components accept the signals they are wired
  to.
\<close>

theorem isValid_one_where_defined:
  "(ProductVerification sha pedersen inp = Some out \<longrightarrow> isValid out = 1)
   \<and> ProductVerification sha pedersen
        (inp \<lparr> verificationHash := h, manufacturerPublicKey := m, ownerPrivateKey := sk \<rparr>)
       = ProductVerification sha pedersen inp
   \<and> (ProductVerification sha pedersen inp = None) =
       (sha (productId inp) (mintTimestamp inp) = None
        \<or> LessEqThan 64 (currentTimestamp inp)
             (fadd (mintTimestamp inp) (warrantyPeriod inp)) = None
        \<or> pedersen (productId inp) (supplyChainHash inp) = None)
   \<and> (currentTimestamp inp' < 2 ^ 64 \<and> mintTimestamp inp' + warrantyPeriod inp' < 2 ^ 64
        \<longrightarrow> map_option isValid (ProductVerification sha pedersen inp')
              = (if sha (productId inp') (mintTimestamp inp') = None
                    \<or> pedersen (productId inp') (supplyChainHash inp') = None
                 then None else Some 1))"
proof (intro conjI impI)
  assume "ProductVerification sha pedersen inp = Some out"
  then show "isValid out = 1"
    by (auto simp: ProductVerification_def split: option.splits)
next
  show "ProductVerification sha pedersen
          (inp \<lparr> verificationHash := h, manufacturerPublicKey := m, ownerPrivateKey := sk \<rparr>)
        = ProductVerification sha pedersen inp"
    by (simp add: ProductVerification_def split: option.splits)
next
  show "(ProductVerification sha pedersen inp = None) =
       (sha (productId inp) (mintTimestamp inp) = None
        \<or> LessEqThan 64 (currentTimestamp inp)
             (fadd (mintTimestamp inp) (warrantyPeriod inp)) = None
        \<or> pedersen (productId inp) (supplyChainHash inp) = None)"
    by (auto simp: ProductVerification_def split: option.splits)
next
  assume "currentTimestamp inp' < 2 ^ 64 \<and> mintTimestamp inp' + warrantyPeriod inp' < 2 ^ 64"
  then show "map_option isValid (ProductVerification sha pedersen inp')
              = (if sha (productId inp') (mintTimestamp inp') = None
                    \<or> pedersen (productId inp') (supplyChainHash inp') = None
                 then None else Some 1)"
    by (auto simp: ProductVerification_in_range split: option.splits)
qed

lemma sample_in_range:
  "currentTimestamp (circuit_sample 1700000000 1699000000 1209600) < 2 ^ 64"
  "mintTimestamp (circuit_sample 1700000000 1699000000 1209600)
     + warrantyPeriod (circuit_sample 1700000000 1699000000 1209600) < 2 ^ 64"
  "currentTimestamp (circuit_sample 1700300000 1699000000 1209600) < 2 ^ 64"
  "mintTimestamp (circuit_sample 1700300000 1699000000 1209600)
     + warrantyPeriod (circuit_sample 1700300000 1699000000 1209600) < 2 ^ 64"
  by (simp_all add: circuit_sample_def)

lemma sample_components:
  "accepting_sha (productId (circuit_sample c m w)) (mintTimestamp (circuit_sample c m w))
     = Some (replicate 256 0)"
  "accepting_pedersen (productId (circuit_sample c m w))
     (supplyChainHash (circuit_sample c m w)) = Some 0"
  by (simp_all add: accepting_sha_def accepting_pedersen_def)

lemma sample_output:
  "ProductVerification accepting_sha accepting_pedersen
     (circuit_sample 1700000000 1699000000 1209600)
     = Some \<lparr> isValid = 1, isInWarranty = 1, zkProofHash = 0 \<rparr>"
  unfolding ProductVerification_in_range[OF sample_in_range(1,2)] sample_components
  by (simp add: circuit_sample_def)

theorem isValid_one_where_defined_witness:
  "ProductVerification accepting_sha accepting_pedersen
     (circuit_sample 1700000000 1699000000 1209600)
     = Some \<lparr> isValid = 1, isInWarranty = 1, zkProofHash = 0 \<rparr>
   \<and> isValid \<lparr> isValid = 1, isInWarranty = 1, zkProofHash = 0 \<rparr> = 1
   \<and> currentTimestamp (circuit_sample 1700000000 1699000000 1209600) < 2 ^ 64
   \<and> mintTimestamp (circuit_sample 1700000000 1699000000 1209600)
       + warrantyPeriod (circuit_sample 1700000000 1699000000 1209600) < 2 ^ 64
   \<and> map_option isValid
       (ProductVerification accepting_sha accepting_pedersen
          (circuit_sample 1700000000 1699000000 1209600))
       = Some 1"
proof -
  note t = isValid_one_where_defined [of accepting_sha accepting_pedersen
      "circuit_sample 1700000000 1699000000 1209600"
      "\<lparr> isValid = 1, isInWarranty = 1, zkProofHash = 0 \<rparr>" 0 0 0
      "circuit_sample 1700000000 1699000000 1209600"]
  have a: "isValid \<lparr> isValid = 1, isInWarranty = 1, zkProofHash = 0 \<rparr> = 1"
    using t [THEN conjunct1, rule_format, OF sample_output] .
  have b: "map_option isValid
       (ProductVerification accepting_sha accepting_pedersen
          (circuit_sample 1700000000 1699000000 1209600))
       = Some 1"
    using t [THEN conjunct2, THEN conjunct2, THEN conjunct2, rule_format, OF conjI,
        OF sample_in_range(1,2)]
    by (simp only: sample_components) simp
  from a b sample_output sample_in_range(1,2) show ?thesis
    by (simp only: simp_thms)
qed

text \<open>
  Claim C8, as stated, fails. With hash components that have no witness, which is the
  file as shipped, \<open>isInWarranty\<close> has no value, also where the timestamp lies
  before the expiry. With hash components that accept every input it fails outside the
  64-bit range of the comparator: with \<open>currentTimestamp = field_p - 1\<close> and expiry
  0 the comparator answers 1 and the circuit \<open>isInWarranty = 1\<close>, although the
  timestamp lies after the expiry; with \<open>currentTimestamp = 5\<close>,
  \<open>mintTimestamp = 2^64\<close> and \<open>warrantyPeriod = 10\<close> the timestamp lies before
  the expiry and the circuit has no witness at all.
\<close>

theorem isInWarranty_wrong_beyond_64_bits:
  "ProductVerification (\<lambda>a b. None) (\<lambda>a b. None) (circuit_sample 5 0 10) = None
   \<and> (5::nat) \<le> 0 + 10
   \<and> LessEqThan 64 (field_p - 1) (fadd 0 0) = Some 1
   \<and> ProductVerification accepting_sha accepting_pedersen (circuit_sample (field_p - 1) 0 0)
       = Some \<lparr> isValid = 1, isInWarranty = 1, zkProofHash = 0 \<rparr>
   \<and> \<not> (field_p - 1 \<le> (0::nat) + 0)
   \<and> ProductVerification accepting_sha accepting_pedersen (circuit_sample 5 (2 ^ 64) 10) = None
   \<and> (5::nat) \<le> 2 ^ 64 + 10"
proof -
  have a: "ProductVerification (\<lambda>a b. None) (\<lambda>a b. None) (circuit_sample 5 0 10) = None"
    by (simp add: ProductVerification_def)
  have b: "ProductVerification accepting_sha accepting_pedersen
             (circuit_sample (field_p - 1) 0 0)
       = Some \<lparr> isValid = 1, isInWarranty = 1, zkProofHash = 0 \<rparr>"
    using compare_sample_c
    by (simp add: ProductVerification_def circuit_sample_def accepting_sha_def
          accepting_pedersen_def)
  have c: "ProductVerification accepting_sha accepting_pedersen (circuit_sample 5 (2 ^ 64) 10)
             = None"
    by (rule ProductVerification_no_compare)
      (simp add: circuit_sample_def LessEqThan_64_eval fsub_def fadd_def field_p_def)
  have d: "\<not> (field_p - 1 \<le> (0::nat) + 0)" by (simp add: field_p_def)
  from a b c d compare_sample_c show ?thesis by simp
qed

text \<open>
  Claim C8, amended. For every input assignment with \<open>currentTimestamp < 2^64\<close> and
  \<open>mintTimestamp + warrantyPeriod < 2^64\<close>, and whatever the two hash components
  compute: if both hash components accept the signals they are wired to, the circuit has
  a witness, and \<open>isInWarranty\<close> is 1 when
  \<open>currentTimestamp \<le> mintTimestamp + warrantyPeriod\<close> and 0 otherwise; if one of
  them does not, the circuit has no witness and \<open>isInWarranty\<close> no value.
\<close>

theorem isInWarranty_on_64_bits:
  assumes "currentTimestamp inp < 2 ^ 64"
    and "mintTimestamp inp + warrantyPeriod inp < 2 ^ 64"
  shows "(sha (productId inp) (mintTimestamp inp) = Some sha_out
          \<and> pedersen (productId inp) (supplyChainHash inp) = Some pedersen_out
          \<longrightarrow> ProductVerification sha pedersen inp
                = Some \<lparr> isValid = 1,
                         isInWarranty =
                           (if currentTimestamp inp \<le> mintTimestamp inp + warrantyPeriod inp
                            then 1 else 0),
                         zkProofHash = pedersen_out \<rparr>)
         \<and> (sha (productId inp) (mintTimestamp inp) = None
            \<or> pedersen (productId inp) (supplyChainHash inp) = None
          \<longrightarrow> ProductVerification sha pedersen inp = None)"
proof (intro conjI impI)
  note in_range = ProductVerification_in_range[OF assms]
  assume "sha (productId inp) (mintTimestamp inp) = Some sha_out
          \<and> pedersen (productId inp) (supplyChainHash inp) = Some pedersen_out"
  then show "ProductVerification sha pedersen inp
                = Some \<lparr> isValid = 1,
                         isInWarranty =
                           (if currentTimestamp inp \<le> mintTimestamp inp + warrantyPeriod inp
                            then 1 else 0),
                         zkProofHash = pedersen_out \<rparr>"
    by (simp add: in_range)
next
  note in_range = ProductVerification_in_range[OF assms]
  assume "sha (productId inp) (mintTimestamp inp) = None
            \<or> pedersen (productId inp) (supplyChainHash inp) = None"
  then show "ProductVerification sha pedersen inp = None"
    by (auto simp: in_range split: option.splits)
qed

theorem isInWarranty_on_64_bits_witness:
  "currentTimestamp (circuit_sample 1700000000 1699000000 1209600) < 2 ^ 64
   \<and> mintTimestamp (circuit_sample 1700000000 1699000000 1209600)
       + warrantyPeriod (circuit_sample 1700000000 1699000000 1209600) < 2 ^ 64
   \<and> accepting_sha (productId (circuit_sample 1700000000 1699000000 1209600))
        (mintTimestamp (circuit_sample 1700000000 1699000000 1209600))
       = Some (replicate 256 0)
   \<and> accepting_pedersen (productId (circuit_sample 1700000000 1699000000 1209600))
        (supplyChainHash (circuit_sample 1700000000 1699000000 1209600)) = Some 0
   \<and> map_option isInWarranty
       (ProductVerification accepting_sha accepting_pedersen
          (circuit_sample 1700000000 1699000000 1209600))
       = Some 1
   \<and> map_option isInWarranty
       (ProductVerification accepting_sha accepting_pedersen
          (circuit_sample 1700300000 1699000000 1209600))
       = Some 0
   \<and> ProductVerification (\<lambda>a b. None) accepting_pedersen
          (circuit_sample 1700000000 1699000000 1209600) = None"
proof -
  have a: "ProductVerification accepting_sha accepting_pedersen
          (circuit_sample 1700000000 1699000000 1209600)
        = Some \<lparr> isValid = 1,
                 isInWarranty =
                   (if currentTimestamp (circuit_sample 1700000000 1699000000 1209600)
                       \<le> mintTimestamp (circuit_sample 1700000000 1699000000 1209600)
                         + warrantyPeriod (circuit_sample 1700000000 1699000000 1209600)
                    then 1 else 0),
                 zkProofHash = 0 \<rparr>"
    using isInWarranty_on_64_bits [OF sample_in_range(1,2),
        where sha = accepting_sha and pedersen = accepting_pedersen,
        THEN conjunct1, rule_format, OF conjI, OF sample_components] .
  have b: "ProductVerification accepting_sha accepting_pedersen
          (circuit_sample 1700300000 1699000000 1209600)
        = Some \<lparr> isValid = 1,
                 isInWarranty =
                   (if currentTimestamp (circuit_sample 1700300000 1699000000 1209600)
                       \<le> mintTimestamp (circuit_sample 1700300000 1699000000 1209600)
                         + warrantyPeriod (circuit_sample 1700300000 1699000000 1209600)
                    then 1 else 0),
                 zkProofHash = 0 \<rparr>"
    using isInWarranty_on_64_bits [OF sample_in_range(3,4),
        where sha = accepting_sha and pedersen = accepting_pedersen,
        THEN conjunct1, rule_format, OF conjI, OF sample_components] .
  have c: "ProductVerification (\<lambda>a b. None) accepting_pedersen
          (circuit_sample 1700000000 1699000000 1209600) = None"
    using isInWarranty_on_64_bits [OF sample_in_range(1,2),
        where sha = "\<lambda>a b. None" and pedersen = accepting_pedersen,
        THEN conjunct2, rule_format]
    by simp
  have a': "map_option isInWarranty
       (ProductVerification accepting_sha accepting_pedersen
          (circuit_sample 1700000000 1699000000 1209600)) = Some 1"
    unfolding a by (simp add: circuit_sample_def)
  have b': "map_option isInWarranty
       (ProductVerification accepting_sha accepting_pedersen
          (circuit_sample 1700300000 1699000000 1209600)) = Some 0"
    unfolding b by (simp add: circuit_sample_def)
  from a' b' c sample_in_range(1,2) sample_components show ?thesis
    by (simp only: simp_thms)
qed

subsection \<open>The ledger\<close>

lemma extends_refl: "extends s s"
  by (simp add: extends_def)

lemma extends_trans:
  assumes "extends s s'" "extends s' s''"
  shows "extends s s''"
proof -
  from assms(1) obtain n1 where n1: "transactions s' = n1 @ transactions s"
    "transactionCounter s' = transactionCounter s + length n1"
    "map tx_id n1 = rev [transactionCounter s ..< transactionCounter s + length n1]"
    by (auto simp: extends_def)
  from assms(2) obtain n2 where n2: "transactions s'' = n2 @ transactions s'"
    "transactionCounter s'' = transactionCounter s' + length n2"
    "map tx_id n2 = rev [transactionCounter s' ..< transactionCounter s' + length n2]"
    by (auto simp: extends_def)
  have "[transactionCounter s ..< transactionCounter s + length n1 + length n2]
        = [transactionCounter s ..< transactionCounter s + length n1]
          @ [transactionCounter s + length n1 ..< transactionCounter s + length n1 + length n2]"
    by (metis le_add1 upt_add_eq_append)
  then have "map tx_id (n2 @ n1)
        = rev [transactionCounter s ..< transactionCounter s + length (n2 @ n1)]"
    using n1 n2 by (simp add: add.commute add.left_commute)
  moreover have "transactions s'' = (n2 @ n1) @ transactions s"
    using n1 n2 by simp
  moreover have "transactionCounter s'' = transactionCounter s + length (n2 @ n1)"
    using n1 n2 by simp
  ultimately show ?thesis unfolding extends_def by blast
qed

lemma extends_addTransaction: "extends s (addTransaction clock tx s)"
  unfolding extends_def addTransaction_def
  by (rule exI[of _ "[tx \<lparr> tx_id := transactionCounter s,
        tx_timestamp := (if tx_timestamp tx \<noteq> [] then tx_timestamp tx else clock) \<rparr>]"]) simp

lemma extends_fold: "extends s (fold (addTransaction clock) txs s)"
proof (induction txs arbitrary: s)
  case Nil
  then show ?case by (simp add: extends_refl)
next
  case (Cons tx txs)
  show ?case
    using extends_trans[OF extends_addTransaction Cons.IH] by simp
qed

lemma extends_same_ledger:
  "transactions s' = transactions s \<Longrightarrow> transactionCounter s' = transactionCounter s
   \<Longrightarrow> extends s s'"
  by (simp add: extends_def)

lemma extends_cong:
  "extends s s1 \<Longrightarrow> transactions s' = transactions s1
   \<Longrightarrow> transactionCounter s' = transactionCounter s1 \<Longrightarrow> extends s s'"
  by (simp add: extends_def)

lemma extends_verify: "extends s (snd (verifyRetailerAddress clock address product s))"
  by (simp add: verifyRetailerAddress_def extends_refl extends_addTransaction)

lemma extends_confirmReceipt: "extends s (confirmReceipt e s)"
proof (cases "currentProduct s")
  case None
  then show ?thesis by (simp add: confirmReceipt_def extends_refl)
next
  case (Some pt)
  then show ?thesis
    unfolding confirmReceipt_def Let_def
    by (auto simp: closeModal_def addTransaction_def extends_def)
qed

lemma extends_burnToken: "extends s (snd (burnToken e tokenId s))"
  unfolding burnToken_def Let_def
  by (auto simp: addTransaction_def extends_def split: option.splits)

lemma extends_step: "extends s (step e op s)"
proof (cases op)
  case LoadInitialTransactions
  then show ?thesis
    unfolding step.simps loadInitialTransactions_def LoadInitialTransactions
    using extends_trans[OF extends_fold extends_fold] by simp
next
  case (OpenPurchaseModal x2)
  then show ?thesis by (simp add: openPurchaseModal_def extends_def)
next
  case CloseModal
  then show ?thesis by (simp add: closeModal_def extends_def)
next
  case (VerifyRetailerAddress x41 x42)
  then show ?thesis by (simp add: extends_verify)
next
  case ConfirmReceipt
  then show ?thesis by (simp add: extends_confirmReceipt)
next
  case (BurnToken x6)
  then show ?thesis by (simp add: extends_burnToken)
next
  case TogglePrivacy
  then show ?thesis by (simp add: togglePrivacy_def extends_def)
qed

lemma invariant_extends:
  assumes "ledger_invariant s" "extends s s'"
  shows "ledger_invariant s'"
proof -
  from assms(2) obtain new where n: "transactions s' = new @ transactions s"
    "transactionCounter s' = transactionCounter s + length new"
    "map tx_id new = rev [transactionCounter s ..< transactionCounter s + length new]"
    by (auto simp: extends_def)
  have "[0 ..< transactionCounter s + length new]
        = [0 ..< transactionCounter s] @ [transactionCounter s ..< transactionCounter s + length new]"
    by (metis le_add1 upt_add_eq_append zero_le add_0)
  then show ?thesis
    using assms(1) n by (simp add: ledger_invariant_def)
qed

lemma reachable_invariant: "reachable s \<Longrightarrow> ledger_invariant s"
proof (induction rule: reachable.induct)
  case reachable_init
  then show ?case by (simp add: ledger_invariant_def appState_def)
next
  case (reachable_step s e op)
  then show ?case using invariant_extends extends_step by blast
qed

lemma invariant_ids_below:
  "ledger_invariant s \<Longrightarrow> t \<in> set (transactions s) \<Longrightarrow> tx_id t < transactionCounter s"
proof -
  assume a: "ledger_invariant s" "t \<in> set (transactions s)"
  then have "tx_id t \<in> set (map tx_id (transactions s))" by simp
  with a show ?thesis by (simp add: ledger_invariant_def)
qed

lemma invariant_sorted:
  "ledger_invariant s \<Longrightarrow> sorted_wrt (>) (map tx_id (transactions s))"
  by (simp add: ledger_invariant_def sorted_wrt_rev del: upt_Suc) 

text \<open>
  Claim C9. In every reachable state, whatever operation comes next, the ledger
  afterwards is the ledger before with the new entries put in front: no entry already
  in the ledger is changed or removed. Every new entry has an id strictly larger than
  every earlier entry, and the ids in the ledger stay strictly decreasing from the
  newest to the oldest. \<open>addTransaction\<close> itself gives the entry the counter as its
  id, above all ids in the ledger.
\<close>

theorem ledger_append_only:
  assumes "reachable s"
  shows "\<exists>new. transactions (step e op s) = new @ transactions s
           \<and> list_all (\<lambda>n. list_all (\<lambda>old. tx_id old < tx_id n) (transactions s)) new
           \<and> sorted_wrt (>) (map tx_id (transactions (step e op s)))
           \<and> transactions (addTransaction clock tx s)
               = tx \<lparr> tx_id := transactionCounter s,
                      tx_timestamp := (if tx_timestamp tx \<noteq> [] then tx_timestamp tx else clock) \<rparr>
                 # transactions s
           \<and> list_all (\<lambda>old. tx_id old < transactionCounter s) (transactions s)"
proof -
  have inv: "ledger_invariant s" using assms by (rule reachable_invariant)
  have inv': "ledger_invariant (step e op s)"
    using inv extends_step by (rule invariant_extends)
  obtain new where n: "transactions (step e op s) = new @ transactions s"
    "map tx_id new = rev [transactionCounter s ..< transactionCounter s + length new]"
    using extends_step[of s e op] by (auto simp: extends_def)
  have old: "list_all (\<lambda>old. tx_id old < transactionCounter s) (transactions s)"
    using inv invariant_ids_below by (auto simp: list_all_iff)
  have "\<forall>x \<in> set new. transactionCounter s \<le> tx_id x"
  proof
    fix x assume "x \<in> set new"
    then have "tx_id x \<in> set (map tx_id new)" by simp
    then show "transactionCounter s \<le> tx_id x" unfolding n(2) by simp
  qed
  with old have "list_all (\<lambda>n. list_all (\<lambda>old. tx_id old < tx_id n) (transactions s)) new"
    by (fastforce simp: list_all_iff)
  moreover have "sorted_wrt (>) (map tx_id (transactions (step e op s)))"
    using inv' by (rule invariant_sorted)
  moreover have "transactions (addTransaction clock tx s)
               = tx \<lparr> tx_id := transactionCounter s,
                      tx_timestamp := (if tx_timestamp tx \<noteq> [] then tx_timestamp tx else clock) \<rparr>
                 # transactions s"
    by (simp add: addTransaction_def)
  ultimately show ?thesis using n(1) old by blast
qed

theorem ledger_append_only_witness:
  "reachable (step (env_sample 0) LoadInitialTransactions appState)
   \<and> (\<exists>new. transactions (step (env_sample 0) ConfirmReceipt
                 (step (env_sample 0) LoadInitialTransactions appState))
             = new @ transactions (step (env_sample 0) LoadInitialTransactions appState)
           \<and> list_all (\<lambda>n. list_all (\<lambda>old. tx_id old < tx_id n)
                 (transactions (step (env_sample 0) LoadInitialTransactions appState))) new)
   \<and> sorted_wrt (>) (map tx_id (transactions (step (env_sample 0) ConfirmReceipt
                 (step (env_sample 0) LoadInitialTransactions appState))))
   \<and> map tx_id (transactions (step (env_sample 0) LoadInitialTransactions appState))
       = [7, 6, 5, 4, 3, 2, 1, 0]"
proof -
  have a: "reachable (step (env_sample 0) LoadInitialTransactions appState)"
    by (rule reachable_step[OF reachable_init])
  have b: "map tx_id (transactions (step (env_sample 0) LoadInitialTransactions appState))
       = [7, 6, 5, 4, 3, 2, 1, 0]"
    by (simp add: loadInitialTransactions_def initialMints_def initialTransfers_def
        addTransaction_def appState_def)
  from a b ledger_append_only [OF a, of "env_sample 0" ConfirmReceipt]
  show ?thesis by blast
qed

lemma extends_run: "extends s (run ops s)"
proof (induction ops arbitrary: s)
  case Nil
  show ?case by (simp add: extends_refl)
next
  case (Cons a ops)
  obtain e op where a: "a = (e, op)" by (cases a)
  have "extends s (step e op s)" by (rule extends_step)
  moreover have "extends (step e op s) (run ops (step e op s))" by (rule Cons.IH)
  ultimately have "extends s (run ops (step e op s))" by (rule extends_trans)
  then show ?case by (simp add: a)
qed

lemma extends_keeps:
  "extends s s' \<Longrightarrow> t \<in> set (transactions s) \<Longrightarrow> t \<in> set (transactions s')"
  by (auto simp: extends_def)

lemma extends_suffix: "extends s s' \<Longrightarrow> \<exists>new. transactions s' = new @ transactions s"
  by (auto simp: extends_def)

subsection \<open>Burning a token\<close>

lemma findIndex_Some:
  "findIndex P xs = Some i \<Longrightarrow> i < length xs \<and> P (xs ! i)"
  by (induction xs arbitrary: i) (auto split: if_splits)

lemma findIndex_None: "(findIndex P xs = None) = (\<forall>x\<in>set xs. \<not> P x)"
  by (induction xs) auto

lemma find_None_findIndex: "(find P xs = None) = (findIndex P xs = None)"
  by (induction xs) auto

text \<open>\<open>findIndex\<close> yields the first position that passes the test, and only that.\<close>

lemma findIndex_first:
  "(findIndex P xs = Some i) = (i < length xs \<and> P (xs ! i) \<and> (\<forall>j<i. \<not> P (xs ! j)))"
proof (induction xs arbitrary: i)
  case Nil
  show ?case by simp
next
  case (Cons x xs)
  show ?case
  proof (cases "P x")
    case True
    then show ?thesis by (cases i) auto
  next
    case False
    show ?thesis
    proof (cases i)
      case 0
      with False show ?thesis by simp
    next
      case (Suc k)
      have "(\<forall>j<Suc k. \<not> P ((x # xs) ! j)) = (\<forall>j<k. \<not> P (xs ! j))"
        using False by (auto simp: less_Suc_eq_0_disj)
      with False Suc Cons.IH[of k] show ?thesis by auto
    qed
  qed
qed

text \<open>With one element passing the test, removing the first such element leaves none.\<close>

lemma removed_single:
  assumes "findIndex P xs = Some i" "length (filter P xs) = 1"
  shows "filter P (take i xs @ drop (Suc i) xs) = []"
proof -
  from findIndex_Some[OF assms(1)] have lt: "i < length xs" and p: "P (xs ! i)" by simp_all
  have "xs = take i xs @ xs ! i # drop (Suc i) xs"
    using lt by (rule id_take_nth_drop)
  then have "filter P xs = filter P (take i xs @ xs ! i # drop (Suc i) xs)"
    by (simp only:)
  then have "length (filter P xs)
      = Suc (length (filter P (take i xs)) + length (filter P (drop (Suc i) xs)))"
    using p by simp
  with assms(2) show ?thesis by simp
qed

lemma burnToken_cases:
  "burnToken e tokenId s =
     (case findIndex (\<lambda>t. tk_id t = tokenId) (ownedTokens s) of
        None \<Rightarrow> (TokenNotFound, s)
      | Some i \<Rightarrow>
          if now e < tk_burnLockDate (ownedTokens s ! i) then (WithinLockPeriod, s)
          else if \<not> confirm_answer e then (BurnDeclined, s)
          else (TokenBurned,
                s \<lparr> transactionCounter := transactionCounter s + 1,
                    transactions :=
                      \<lparr> tx_id = transactionCounter s, tx_type = burn,
                        tx_product = tk_product (ownedTokens s ! i),
                        tx_from = ''bc1q...demo'', tx_to = ''addr1...daf4w (Burn Address)'',
                        tx_tokenId = Some tokenId, tx_amount = None,
                        tx_timestamp = time_str e,
                        tx_certification = None, tx_carbonFootprint = None \<rparr>
                      # transactions s,
                    ownedTokens := take i (ownedTokens s) @ drop (Suc i) (ownedTokens s) \<rparr>))"
  by (auto simp: burnToken_def addTransaction_def burn_tx_def Let_def split: option.splits)

lemma burnToken_burned:
  assumes "burnToken e tokenId s = (TokenBurned, s')"
  obtains i where "findIndex (\<lambda>t. tk_id t = tokenId) (ownedTokens s) = Some i"
    "tk_burnLockDate (ownedTokens s ! i) \<le> now e" "confirm_answer e"
    "s' = s \<lparr> transactionCounter := transactionCounter s + 1,
              transactions :=
                \<lparr> tx_id = transactionCounter s, tx_type = burn,
                  tx_product = tk_product (ownedTokens s ! i),
                  tx_from = ''bc1q...demo'', tx_to = ''addr1...daf4w (Burn Address)'',
                  tx_tokenId = Some tokenId, tx_amount = None,
                  tx_timestamp = time_str e,
                  tx_certification = None, tx_carbonFootprint = None \<rparr>
                # transactions s,
              ownedTokens := take i (ownedTokens s) @ drop (Suc i) (ownedTokens s) \<rparr>"
  using assms unfolding burnToken_cases
  by (auto split: option.splits if_splits)

text \<open>
  A purchase appends one token, locked until 14 days after the purchase, and leaves the
  tokens owned before as they are.
\<close>

lemma confirmReceipt_token:
  assumes "currentProduct s = Some pt"
  shows "ownedTokens (confirmReceipt e s)
           = ownedTokens s @ [last (ownedTokens (confirmReceipt e s))]"
    "tk_burnLockDate (last (ownedTokens (confirmReceipt e s))) = now e + 14 * day_ms"
    "tk_id (last (ownedTokens (confirmReceipt e s))) =
       p_tokenIdPrefix (productInfo pt)
       @ padStart 3 (CHR ''0'') (to_string_radix 10 (random100 e + 1))"
  using assms
  by (simp_all add: confirmReceipt_def Let_def closeModal_def addTransaction_def day_ms_def)

lemma confirmReceipt_none: "currentProduct s = None \<Longrightarrow> confirmReceipt e s = s"
  by (simp add: confirmReceipt_def)

lemma confirmReceipt_ledger:
  assumes "currentProduct s = Some pt"
  shows "\<exists>t. transactions (confirmReceipt e s) = t # transactions s
           \<and> tx_tokenId t = Some (p_tokenIdPrefix (productInfo pt)
               @ padStart 3 (CHR ''0'') (to_string_radix 10 (random100 e + 1)))"
  using assms
  by (simp add: confirmReceipt_def Let_def closeModal_def addTransaction_def)

lemma fold_addTransaction_tokens:
  "ownedTokens (fold (addTransaction clock) txs s) = ownedTokens s"
  by (induction txs arbitrary: s) (simp_all add: addTransaction_def)

lemma fold_addTransaction_ledger:
  "\<exists>new. transactions (fold (addTransaction clock) txs s) = new @ transactions s
          \<and> map tx_tokenId new = rev (map tx_tokenId txs)"
proof (induction txs arbitrary: s)
  case Nil
  show ?case by simp
next
  case (Cons tx txs)
  from Cons.IH[of "addTransaction clock tx s"] obtain new where
    new: "transactions (fold (addTransaction clock) txs (addTransaction clock tx s))
            = new @ transactions (addTransaction clock tx s)"
      "map tx_tokenId new = rev (map tx_tokenId txs)"
    by blast
  obtain t where t: "transactions (addTransaction clock tx s) = t # transactions s"
    "tx_tokenId t = tx_tokenId tx"
    by (simp add: addTransaction_def)
  have "transactions (fold (addTransaction clock) (tx # txs) s) = (new @ [t]) @ transactions s"
    using new(1) t(1) by simp
  moreover have "map tx_tokenId (new @ [t]) = rev (map tx_tokenId (tx # txs))"
    using new(2) t(2) by simp
  ultimately show ?case by blast
qed

lemma loadInitialTransactions_tokens:
  "ownedTokens (loadInitialTransactions clock s) = ownedTokens s"
  by (simp add: loadInitialTransactions_def fold_addTransaction_tokens)

lemma loadInitialTransactions_ledger:
  "\<exists>new. transactions (loadInitialTransactions clock s) = new @ transactions s
          \<and> set (map tx_tokenId new) = set (map tx_tokenId (initialMints @ initialTransfers))"
proof -
  have "loadInitialTransactions clock s =
          fold (addTransaction clock) (initialMints @ initialTransfers) s"
    by (simp add: loadInitialTransactions_def)
  with fold_addTransaction_ledger[of clock "initialMints @ initialTransfers" s]
  obtain new where "transactions (loadInitialTransactions clock s) = new @ transactions s"
    "map tx_tokenId new = rev (map tx_tokenId (initialMints @ initialTransfers))"
    by auto
  then have "transactions (loadInitialTransactions clock s) = new @ transactions s
          \<and> set (map tx_tokenId new) = set (map tx_tokenId (initialMints @ initialTransfers))"
    by (simp only: set_rev simp_thms)
  then show ?thesis by blast
qed

text \<open>Only purchases and burns touch the collection of owned tokens.\<close>

lemma step_tokens:
  "ownedTokens (step e op s) =
     (case op of
        ConfirmReceipt \<Rightarrow> ownedTokens (confirmReceipt e s)
      | BurnToken tokenId \<Rightarrow> ownedTokens (snd (burnToken e tokenId s))
      | _ \<Rightarrow> ownedTokens s)"
  by (cases op)
    (simp_all add: loadInitialTransactions_tokens openPurchaseModal_def closeModal_def
      togglePrivacy_def verifyRetailerAddress_def addTransaction_def)

lemma filter_without_nth:
  assumes "i < length xs" "\<not> P (xs ! i)"
  shows "filter P (take i xs @ drop (Suc i) xs) = filter P xs"
proof -
  have "filter P (take i xs @ xs ! i # drop (Suc i) xs) = filter P (take i xs @ drop (Suc i) xs)"
    using assms(2) by simp
  moreover have "take i xs @ xs ! i # drop (Suc i) xs = xs"
    using assms(1) by (rule id_take_nth_drop[symmetric])
  ultimately show ?thesis by (simp only:)
qed

lemma locked_tokens_stay:
  "filter (\<lambda>t. now e < tk_burnLockDate t) (ownedTokens (snd (burnToken e anyId s)))
     = filter (\<lambda>t. now e < tk_burnLockDate t) (ownedTokens s)"
proof (cases "findIndex (\<lambda>t. tk_id t = anyId) (ownedTokens s)")
  case None
  then show ?thesis by (simp add: burnToken_cases)
next
  case (Some j)
  from findIndex_Some[OF Some] have j: "j < length (ownedTokens s)" by simp
  show ?thesis
  proof (cases "now e < tk_burnLockDate (ownedTokens s ! j) \<or> \<not> confirm_answer e")
    case True
    then show ?thesis using Some by (auto simp: burnToken_cases)
  next
    case False
    then have "\<not> now e < tk_burnLockDate (ownedTokens s ! j)" by simp
    with j have "filter (\<lambda>t. now e < tk_burnLockDate t)
                   (take j (ownedTokens s) @ drop (Suc j) (ownedTokens s))
                 = filter (\<lambda>t. now e < tk_burnLockDate t) (ownedTokens s)"
      by (rule filter_without_nth)
    then show ?thesis using False Some by (simp add: burnToken_cases)
  qed
qed

text \<open>
  An id that no owned token carries stays that way, and no ledger entry is written for
  it, under every operation that does not issue it.
\<close>

lemma absent_step:
  assumes "findIndex (\<lambda>t. tk_id t = tokenId) (ownedTokens s) = None"
    and "\<not> issues tokenId e op s"
  shows "findIndex (\<lambda>t. tk_id t = tokenId) (ownedTokens (step e op s)) = None
         \<and> (\<exists>new. transactions (step e op s) = new @ transactions s
               \<and> list_all (\<lambda>t. tx_tokenId t \<noteq> Some tokenId) new)"
proof (cases op)
  case LoadInitialTransactions
  from loadInitialTransactions_ledger[of "time_str e" s] obtain new where
    new: "transactions (loadInitialTransactions (time_str e) s) = new @ transactions s"
      "set (map tx_tokenId new) = set (map tx_tokenId (initialMints @ initialTransfers))"
    by blast
  from assms(2) LoadInitialTransactions
  have "Some tokenId \<notin> set (map tx_tokenId new)"
    by (simp only: new(2) issues.simps simp_thms)
  then have "list_all (\<lambda>t. tx_tokenId t \<noteq> Some tokenId) new"
    by (force simp: list_all_iff image_iff)
  with new(1) assms(1) LoadInitialTransactions show ?thesis
    by (auto simp: loadInitialTransactions_tokens)
next
  case (OpenPurchaseModal pt)
  with assms(1) show ?thesis by (simp add: openPurchaseModal_def)
next
  case CloseModal
  with assms(1) show ?thesis by (simp add: closeModal_def)
next
  case (VerifyRetailerAddress address product)
  with assms(1) show ?thesis
    by (simp add: verifyRetailerAddress_def addTransaction_def)
next
  case ConfirmReceipt
  show ?thesis
  proof (cases "currentProduct s")
    case None
    with assms(1) ConfirmReceipt show ?thesis by (simp add: confirmReceipt_none)
  next
    case (Some pt)
    let ?new = "p_tokenIdPrefix (productInfo pt)
                @ padStart 3 (CHR ''0'') (to_string_radix 10 (random100 e + 1))"
    from assms(2) ConfirmReceipt Some have ne: "?new \<noteq> tokenId"
      by (simp add: issued_id_def)
    from confirmReceipt_ledger[OF Some, of e] obtain t where
      t: "transactions (confirmReceipt e s) = t # transactions s" "tx_tokenId t = Some ?new"
      by blast
    have tok: "ownedTokens (confirmReceipt e s)
                 = ownedTokens s @ [last (ownedTokens (confirmReceipt e s))]"
      "tk_id (last (ownedTokens (confirmReceipt e s))) = ?new"
      using confirmReceipt_token[OF Some, of e] by simp_all
    have "\<forall>x\<in>set (ownedTokens (confirmReceipt e s)). tk_id x \<noteq> tokenId"
    proof
      fix x assume "x \<in> set (ownedTokens (confirmReceipt e s))"
      then have "x \<in> set (ownedTokens s @ [last (ownedTokens (confirmReceipt e s))])"
        using tok(1) by (simp only:)
      then show "tk_id x \<noteq> tokenId"
        using assms(1) tok(2) ne by (auto simp: findIndex_None)
    qed
    then have "findIndex (\<lambda>t. tk_id t = tokenId) (ownedTokens (confirmReceipt e s)) = None"
      by (simp add: findIndex_None)
    moreover have "transactions (confirmReceipt e s) = [t] @ transactions s
        \<and> list_all (\<lambda>t. tx_tokenId t \<noteq> Some tokenId) [t]"
      using t ne by simp
    ultimately show ?thesis using ConfirmReceipt by (simp only: step.simps) blast
  qed
next
  case (BurnToken tid)
  show ?thesis
  proof (cases "tid = tokenId")
    case True
    with assms(1) BurnToken show ?thesis by (simp add: burnToken_cases)
  next
    case False
    show ?thesis
    proof (cases "findIndex (\<lambda>t. tk_id t = tid) (ownedTokens s)")
      case None
      with assms(1) BurnToken show ?thesis by (simp add: burnToken_cases)
    next
      case (Some i)
      have sub: "set (take i (ownedTokens s) @ drop (Suc i) (ownedTokens s))
                   \<subseteq> set (ownedTokens s)"
        using set_take_subset set_drop_subset by fastforce
      have gone: "findIndex (\<lambda>t. tk_id t = tokenId)
                    (take i (ownedTokens s) @ drop (Suc i) (ownedTokens s)) = None"
        using assms(1) sub unfolding findIndex_None by blast
      show ?thesis
        using Some BurnToken False assms(1) gone
        by (simp add: burnToken_cases)
    qed
  qed
next
  case TogglePrivacy
  with assms(1) show ?thesis by (simp add: togglePrivacy_def)
qed

lemma absent_run:
  assumes "findIndex (\<lambda>t. tk_id t = tokenId) (ownedTokens s) = None"
    and "never_issued tokenId ops s"
  shows "findIndex (\<lambda>t. tk_id t = tokenId) (ownedTokens (run ops s)) = None
         \<and> (\<exists>new. transactions (run ops s) = new @ transactions s
               \<and> list_all (\<lambda>t. tx_tokenId t \<noteq> Some tokenId) new)"
  using assms
proof (induction ops arbitrary: s)
  case Nil
  then show ?case by simp
next
  case (Cons a ops)
  obtain e op where a: "a = (e, op)" by (cases a)
  from Cons.prems(2) a have ni: "\<not> issues tokenId e op s"
    and rest: "never_issued tokenId ops (step e op s)"
    by simp_all
  from absent_step[OF Cons.prems(1) ni] obtain new1 where
    s1: "findIndex (\<lambda>t. tk_id t = tokenId) (ownedTokens (step e op s)) = None"
      "transactions (step e op s) = new1 @ transactions s"
      "list_all (\<lambda>t. tx_tokenId t \<noteq> Some tokenId) new1"
    by blast
  from Cons.IH[OF s1(1) rest] obtain new2 where
    s2: "findIndex (\<lambda>t. tk_id t = tokenId) (ownedTokens (run ops (step e op s))) = None"
      "transactions (run ops (step e op s)) = new2 @ transactions (step e op s)"
      "list_all (\<lambda>t. tx_tokenId t \<noteq> Some tokenId) new2"
    by blast
  have "transactions (run (a # ops) s) = (new2 @ new1) @ transactions s"
    using s1(2) s2(2) a by simp
  moreover have "list_all (\<lambda>t. tx_tokenId t \<noteq> Some tokenId) (new2 @ new1)"
    using s1(3) s2(3) by simp
  moreover have "findIndex (\<lambda>t. tk_id t = tokenId) (ownedTokens (run (a # ops) s)) = None"
    using s2(1) a by simp
  ultimately show ?case by blast
qed

lemma burned_id_absent:
  assumes "burnToken e tokenId s = (TokenBurned, s')"
    and "length (filter (\<lambda>t. tk_id t = tokenId) (ownedTokens s)) = 1"
  shows "findIndex (\<lambda>t. tk_id t = tokenId) (ownedTokens s') = None"
proof -
  from assms(1) obtain i where i: "findIndex (\<lambda>t. tk_id t = tokenId) (ownedTokens s) = Some i"
    and s': "ownedTokens s' = take i (ownedTokens s) @ drop (Suc i) (ownedTokens s)"
    by (rule burnToken_burned) simp
  have "filter (\<lambda>t. tk_id t = tokenId) (ownedTokens s') = []"
    unfolding s' using i assms(2) by (rule removed_single)
  then show ?thesis
    by (simp add: findIndex_None filter_empty_conv)
qed

lemma showTokenDetails_not_found:
  assumes "findIndex (\<lambda>t. tk_id t = tokenId) (ownedTokens s) = None"
  shows "showTokenDetails tokenId s = Inl ''Token not found.''"
proof -
  have "find (\<lambda>t. tk_id t = tokenId) (ownedTokens s) = None"
    using assms by (simp add: find_None_findIndex)
  then show ?thesis by (simp add: showTokenDetails_def)
qed

lemma token_number_5: "padStart 3 (CHR ''0'') (to_string_radix 10 5) = ''005''"
  by code_simp

lemma token_number_8: "padStart 3 (CHR ''0'') (to_string_radix 10 8) = ''008''"
  by code_simp

lemma bought_state_tokens: "ownedTokens bought_state = [sample_token]"
  by (simp add: bought_state_def confirmReceipt_def openPurchaseModal_def appState_def
      env_sample_def Let_def closeModal_def addTransaction_def token_number_5
      sample_token_def when_truthy_def day_ms_def)

lemma bought_state_product: "currentProduct bought_state = Some fragrance"
  by (simp add: bought_state_def confirmReceipt_def openPurchaseModal_def appState_def
      Let_def closeModal_def addTransaction_def)

lemma sample_findIndex:
  "findIndex (\<lambda>t. tk_id t = ''#LUX-005'') (ownedTokens bought_state) = Some 0"
  by (simp add: bought_state_tokens sample_token_def)

lemma sample_burn:
  "burnToken (env_sample (15 * day_ms)) ''#LUX-005'' bought_state = (TokenBurned, burned_state)"
  by (simp add: burned_state_def prod_eq_iff burnToken_cases sample_findIndex
      bought_state_tokens sample_token_def env_sample_def day_ms_def)

lemma burned_state_tokens: "ownedTokens burned_state = []"
  by (simp add: burned_state_def burnToken_cases sample_findIndex bought_state_tokens
      sample_token_def env_sample_def day_ms_def)

lemma burned_state_product: "currentProduct burned_state = Some fragrance"
  by (simp add: burned_state_def burnToken_cases sample_findIndex bought_state_tokens
      sample_token_def env_sample_def day_ms_def bought_state_product)

lemma twice_bought_state_tokens:
  "ownedTokens twice_bought_state
     = [sample_token, sample_token \<lparr> tk_burnLockDate := 19 * day_ms \<rparr>]"
  by (simp add: twice_bought_state_def confirmReceipt_def bought_state_product
      bought_state_tokens env_sample_def Let_def closeModal_def addTransaction_def
      token_number_5 sample_token_def when_truthy_def day_ms_def)

lemma rebought_state_tokens:
  "ownedTokens rebought_state = [sample_token \<lparr> tk_burnLockDate := 30 * day_ms \<rparr>]"
  by (simp add: rebought_state_def confirmReceipt_def burned_state_product
      burned_state_tokens env_sample_def Let_def closeModal_def addTransaction_def
      token_number_5 sample_token_def when_truthy_def day_ms_def)

lemma rebought_state_ledger:
  "tx_type (hd (transactions rebought_state)) = transfer"
  "tx_tokenId (hd (transactions rebought_state)) = Some ''#LUX-005''"
  "tl (transactions rebought_state) = transactions burned_state"
  by (simp_all add: rebought_state_def confirmReceipt_def burned_state_product
      Let_def closeModal_def addTransaction_def token_number_5 env_sample_def)

text \<open>
  Claim C1, as stated, fails. Token ids are drawn at random from 1 to 100 and can repeat:
  after two purchases of the fragrance, on day 0 and on day 5, that both draw the number
  5, two tokens \<open>#LUX-005\<close> are owned, locked until day 14 and day 19. A burn of that id
  on day 15, strictly before the lock date of the second token, does not fail with the
  lock alert: it ends with \<open>TokenBurned\<close> and changes the state (the first token goes,
  a burn entry is written). At the boundary itself a burn does not succeed when the
  holder declines the dialog. And a burn that succeeds marks nothing: the token is
  deleted from the owned tokens, which after the burn of the only token are empty.
\<close>

theorem burn_passes_lock_of_second_token:
  "ownedTokens twice_bought_state
     = [sample_token, sample_token \<lparr> tk_burnLockDate := 19 * day_ms \<rparr>]
   \<and> tk_id (ownedTokens twice_bought_state ! 1) = ''#LUX-005''
   \<and> now (env_sample (15 * day_ms)) < tk_burnLockDate (ownedTokens twice_bought_state ! 1)
   \<and> fst (burnToken (env_sample (15 * day_ms)) ''#LUX-005'' twice_bought_state) = TokenBurned
   \<and> ownedTokens (snd (burnToken (env_sample (15 * day_ms)) ''#LUX-005'' twice_bought_state))
       = [sample_token \<lparr> tk_burnLockDate := 19 * day_ms \<rparr>]
   \<and> length (transactions
         (snd (burnToken (env_sample (15 * day_ms)) ''#LUX-005'' twice_bought_state)))
       = Suc (length (transactions twice_bought_state))
   \<and> tk_burnLockDate (ownedTokens bought_state ! 0) = now (env_sample (14 * day_ms))
   \<and> burnToken ((env_sample (14 * day_ms)) \<lparr> confirm_answer := False \<rparr>) ''#LUX-005''
        bought_state
       = (BurnDeclined, bought_state)
   \<and> fst (burnToken (env_sample (14 * day_ms)) ''#LUX-005'' bought_state) = TokenBurned
   \<and> ownedTokens (snd (burnToken (env_sample (14 * day_ms)) ''#LUX-005'' bought_state)) = []"
proof -
  have f2: "findIndex (\<lambda>t. tk_id t = ''#LUX-005'') (ownedTokens twice_bought_state) = Some 0"
    by (simp add: twice_bought_state_tokens sample_token_def)
  have 1: "tk_id (ownedTokens twice_bought_state ! 1) = ''#LUX-005''"
    "now (env_sample (15 * day_ms)) < tk_burnLockDate (ownedTokens twice_bought_state ! 1)"
    by (simp_all add: twice_bought_state_tokens sample_token_def env_sample_def day_ms_def)
  have 2: "fst (burnToken (env_sample (15 * day_ms)) ''#LUX-005'' twice_bought_state)
             = TokenBurned"
    "ownedTokens (snd (burnToken (env_sample (15 * day_ms)) ''#LUX-005'' twice_bought_state))
       = [sample_token \<lparr> tk_burnLockDate := 19 * day_ms \<rparr>]"
    "length (transactions
         (snd (burnToken (env_sample (15 * day_ms)) ''#LUX-005'' twice_bought_state)))
       = Suc (length (transactions twice_bought_state))"
    by (simp_all add: burnToken_cases f2 twice_bought_state_tokens sample_token_def
        env_sample_def day_ms_def)
  have 3: "tk_burnLockDate (ownedTokens bought_state ! 0) = now (env_sample (14 * day_ms))"
    by (simp add: bought_state_tokens sample_token_def env_sample_def)
  have 4: "burnToken ((env_sample (14 * day_ms)) \<lparr> confirm_answer := False \<rparr>) ''#LUX-005''
        bought_state = (BurnDeclined, bought_state)"
    by (simp add: burnToken_cases sample_findIndex bought_state_tokens sample_token_def
        env_sample_def)
  have 5: "fst (burnToken (env_sample (14 * day_ms)) ''#LUX-005'' bought_state) = TokenBurned"
    "ownedTokens (snd (burnToken (env_sample (14 * day_ms)) ''#LUX-005'' bought_state)) = []"
    by (simp_all add: burnToken_cases sample_findIndex bought_state_tokens sample_token_def
        env_sample_def)
  from twice_bought_state_tokens 1 2 3 4 5 show ?thesis
    by (simp only: simp_thms)
qed

text \<open>
  Claim C1, amended. A purchase appends one token to the owned tokens, locked until 14
  days after the purchase, and leaves the tokens owned before as they are; of all
  operations only purchases and burns change the owned tokens. A burn addresses a token
  by its id and acts on the first owned token with that id. Attempted strictly before
  the lock date of that token, it ends with the lock alert (\<open>WithinLockPeriod\<close>) and
  leaves the state as it was. Attempted at the lock date or later, it succeeds when the
  dialog is confirmed: a ledger entry of type \<open>burn\<close> with the token's id and product,
  from \<open>bc1q...demo\<close> to the burn address, is put in front of the ledger under the next
  id, and the token is deleted from the owned tokens (there is no \<open>Burned\<close> mark, and
  no check of who the holder is); when the dialog is declined, nothing changes. Whatever
  id a burn is called with, the tokens that are still locked all stay in the collection.
\<close>

theorem burn_lock_period:
  "(currentProduct s0 = Some pt \<longrightarrow>
      ownedTokens (confirmReceipt e0 s0)
        = ownedTokens s0 @ [last (ownedTokens (confirmReceipt e0 s0))]
      \<and> tk_burnLockDate (last (ownedTokens (confirmReceipt e0 s0))) = now e0 + 14 * day_ms)
   \<and> ownedTokens (step e3 op s3) =
       (case op of
          ConfirmReceipt \<Rightarrow> ownedTokens (confirmReceipt e3 s3)
        | BurnToken anyToken \<Rightarrow> ownedTokens (snd (burnToken e3 anyToken s3))
        | _ \<Rightarrow> ownedTokens s3)
   \<and> (findIndex (\<lambda>t. tk_id t = tokenId1) (ownedTokens s1) = Some k) =
       (k < length (ownedTokens s1) \<and> tk_id (ownedTokens s1 ! k) = tokenId1
        \<and> (\<forall>j<k. tk_id (ownedTokens s1 ! j) \<noteq> tokenId1))
   \<and> (findIndex (\<lambda>t. tk_id t = tokenId) (ownedTokens s) = Some i \<longrightarrow>
        (now e1 < tk_burnLockDate (ownedTokens s ! i) \<longrightarrow>
           burnToken e1 tokenId s = (WithinLockPeriod, s))
        \<and> (tk_burnLockDate (ownedTokens s ! i) \<le> now e \<and> confirm_answer e \<longrightarrow>
             burnToken e tokenId s =
               (TokenBurned,
                s \<lparr> transactionCounter := transactionCounter s + 1,
                    transactions :=
                      \<lparr> tx_id = transactionCounter s, tx_type = burn,
                        tx_product = tk_product (ownedTokens s ! i),
                        tx_from = ''bc1q...demo'', tx_to = ''addr1...daf4w (Burn Address)'',
                        tx_tokenId = Some tokenId, tx_amount = None,
                        tx_timestamp = time_str e,
                        tx_certification = None, tx_carbonFootprint = None \<rparr>
                      # transactions s,
                    ownedTokens := take i (ownedTokens s) @ drop (Suc i) (ownedTokens s) \<rparr>))
        \<and> (tk_burnLockDate (ownedTokens s ! i) \<le> now e4 \<and> \<not> confirm_answer e4 \<longrightarrow>
             burnToken e4 tokenId s = (BurnDeclined, s)))
   \<and> filter (\<lambda>t. now e2 < tk_burnLockDate t) (ownedTokens (snd (burnToken e2 anyId s')))
       = filter (\<lambda>t. now e2 < tk_burnLockDate t) (ownedTokens s')"
proof (intro conjI impI)
  assume a: "currentProduct s0 = Some pt"
  then show "ownedTokens (confirmReceipt e0 s0)
        = ownedTokens s0 @ [last (ownedTokens (confirmReceipt e0 s0))]"
    by (rule confirmReceipt_token)
  from a show "tk_burnLockDate (last (ownedTokens (confirmReceipt e0 s0)))
                 = now e0 + 14 * day_ms"
    by (rule confirmReceipt_token)
next
  show "ownedTokens (step e3 op s3) =
       (case op of
          ConfirmReceipt \<Rightarrow> ownedTokens (confirmReceipt e3 s3)
        | BurnToken anyToken \<Rightarrow> ownedTokens (snd (burnToken e3 anyToken s3))
        | _ \<Rightarrow> ownedTokens s3)"
    by (rule step_tokens)
next
  show "(findIndex (\<lambda>t. tk_id t = tokenId1) (ownedTokens s1) = Some k) =
       (k < length (ownedTokens s1) \<and> tk_id (ownedTokens s1 ! k) = tokenId1
        \<and> (\<forall>j<k. tk_id (ownedTokens s1 ! j) \<noteq> tokenId1))"
    by (rule findIndex_first)
next
  assume "findIndex (\<lambda>t. tk_id t = tokenId) (ownedTokens s) = Some i"
    "now e1 < tk_burnLockDate (ownedTokens s ! i)"
  then show "burnToken e1 tokenId s = (WithinLockPeriod, s)"
    by (simp add: burnToken_cases)
next
  assume "findIndex (\<lambda>t. tk_id t = tokenId) (ownedTokens s) = Some i"
    "tk_burnLockDate (ownedTokens s ! i) \<le> now e \<and> confirm_answer e"
  then show "burnToken e tokenId s =
               (TokenBurned,
                s \<lparr> transactionCounter := transactionCounter s + 1,
                    transactions :=
                      \<lparr> tx_id = transactionCounter s, tx_type = burn,
                        tx_product = tk_product (ownedTokens s ! i),
                        tx_from = ''bc1q...demo'', tx_to = ''addr1...daf4w (Burn Address)'',
                        tx_tokenId = Some tokenId, tx_amount = None,
                        tx_timestamp = time_str e,
                        tx_certification = None, tx_carbonFootprint = None \<rparr>
                      # transactions s,
                    ownedTokens := take i (ownedTokens s) @ drop (Suc i) (ownedTokens s) \<rparr>)"
    by (simp add: burnToken_cases)
next
  assume "findIndex (\<lambda>t. tk_id t = tokenId) (ownedTokens s) = Some i"
    "tk_burnLockDate (ownedTokens s ! i) \<le> now e4 \<and> \<not> confirm_answer e4"
  then show "burnToken e4 tokenId s = (BurnDeclined, s)"
    by (simp add: burnToken_cases)
next
  show "filter (\<lambda>t. now e2 < tk_burnLockDate t) (ownedTokens (snd (burnToken e2 anyId s')))
          = filter (\<lambda>t. now e2 < tk_burnLockDate t) (ownedTokens s')"
    by (rule locked_tokens_stay)
qed

theorem burn_lock_period_witness:
  "currentProduct bought_state = Some fragrance
   \<and> ownedTokens (confirmReceipt (env_sample (5 * day_ms)) bought_state)
       = ownedTokens bought_state
         @ [last (ownedTokens (confirmReceipt (env_sample (5 * day_ms)) bought_state))]
   \<and> tk_burnLockDate (last (ownedTokens
         (confirmReceipt (env_sample (5 * day_ms)) bought_state)))
       = now (env_sample (5 * day_ms)) + 14 * day_ms
   \<and> findIndex (\<lambda>t. tk_id t = ''#LUX-005'') (ownedTokens bought_state) = Some 0
   \<and> now (env_sample (10 * day_ms)) < tk_burnLockDate (ownedTokens bought_state ! 0)
   \<and> burnToken (env_sample (10 * day_ms)) ''#LUX-005'' bought_state
       = (WithinLockPeriod, bought_state)
   \<and> tk_burnLockDate (ownedTokens bought_state ! 0) \<le> now (env_sample (14 * day_ms))
   \<and> confirm_answer (env_sample (14 * day_ms))
   \<and> burnToken (env_sample (14 * day_ms)) ''#LUX-005'' bought_state
       = (TokenBurned,
          bought_state
            \<lparr> transactionCounter := transactionCounter bought_state + 1,
              transactions :=
                \<lparr> tx_id = transactionCounter bought_state, tx_type = burn,
                  tx_product = tk_product (ownedTokens bought_state ! 0),
                  tx_from = ''bc1q...demo'', tx_to = ''addr1...daf4w (Burn Address)'',
                  tx_tokenId = Some ''#LUX-005'', tx_amount = None,
                  tx_timestamp = time_str (env_sample (14 * day_ms)),
                  tx_certification = None, tx_carbonFootprint = None \<rparr>
                # transactions bought_state,
              ownedTokens := take 0 (ownedTokens bought_state)
                             @ drop (Suc 0) (ownedTokens bought_state) \<rparr>)
   \<and> \<not> confirm_answer ((env_sample (14 * day_ms)) \<lparr> confirm_answer := False \<rparr>)
   \<and> burnToken ((env_sample (14 * day_ms)) \<lparr> confirm_answer := False \<rparr>) ''#LUX-005''
        bought_state
       = (BurnDeclined, bought_state)"
proof -
  note t = burn_lock_period [of bought_state fragrance "env_sample (5 * day_ms)"
      "env_sample 0" ConfirmReceipt bought_state
      "''#LUX-005''" bought_state 0
      "''#LUX-005''" bought_state 0 "env_sample (10 * day_ms)"
      "env_sample (14 * day_ms)" "(env_sample (14 * day_ms)) \<lparr> confirm_answer := False \<rparr>"
      "env_sample (10 * day_ms)" "''#LUX-005''" bought_state]
  note p = t [THEN conjunct1, rule_format, OF bought_state_product]
  note b = t [THEN conjunct2, THEN conjunct2, THEN conjunct2, THEN conjunct1, rule_format,
      OF sample_findIndex]
  have l: "now (env_sample (10 * day_ms)) < tk_burnLockDate (ownedTokens bought_state ! 0)"
    by (simp add: bought_state_tokens sample_token_def env_sample_def day_ms_def)
  have c: "tk_burnLockDate (ownedTokens bought_state ! 0) \<le> now (env_sample (14 * day_ms))"
    "confirm_answer (env_sample (14 * day_ms))"
    by (simp_all add: bought_state_tokens sample_token_def env_sample_def)
  have d: "tk_burnLockDate (ownedTokens bought_state ! 0)
             \<le> now ((env_sample (14 * day_ms)) \<lparr> confirm_answer := False \<rparr>)"
    "\<not> confirm_answer ((env_sample (14 * day_ms)) \<lparr> confirm_answer := False \<rparr>)"
    by (simp_all add: bought_state_tokens sample_token_def env_sample_def)
  note r1 = b [THEN conjunct1, rule_format, OF l]
  note r2 = b [THEN conjunct2, THEN conjunct1, rule_format, OF conjI, OF c]
  note r3 = b [THEN conjunct2, THEN conjunct2, rule_format, OF conjI, OF d]
  from bought_state_product p sample_findIndex l r1 c r2 d(2) r3 show ?thesis
    by (simp only: simp_thms)
qed

text \<open>
  Claim C2, as stated, fails on the scenario of the specification: the purchase, a burn
  attempt on day 10 (locked), the burn on day 15, and a second burn attempt. The second
  attempt ends with \<open>Token not found.\<close>, the very outcome of a burn of an id that
  never existed; the code has no state for a burned token and no \<open>TerminalState\<close>
  error. Nor is the burn the last event for the id: a purchase on day 16 that draws the
  number 5 again puts a transfer entry for \<open>#LUX-005\<close> on the ledger, in front of the
  burn entry, and the id is owned again and can be burned once more after its lock.
\<close>

theorem second_burn_reports_token_not_found:
  "fst (burnToken (env_sample (10 * day_ms)) ''#LUX-005'' bought_state) = WithinLockPeriod
   \<and> burnToken (env_sample (15 * day_ms)) ''#LUX-005'' bought_state = (TokenBurned, burned_state)
   \<and> burnToken (env_sample (15 * day_ms)) ''#LUX-005'' burned_state
       = (TokenNotFound, burned_state)
   \<and> burnToken (env_sample (15 * day_ms)) ''#LUX-999'' burned_state
       = (TokenNotFound, burned_state)
   \<and> tx_type (hd (transactions burned_state)) = burn
   \<and> tx_tokenId (hd (transactions burned_state)) = Some ''#LUX-005''
   \<and> rebought_state = step (env_sample (16 * day_ms)) ConfirmReceipt burned_state
   \<and> tl (transactions rebought_state) = transactions burned_state
   \<and> tx_type (hd (transactions rebought_state)) = transfer
   \<and> tx_tokenId (hd (transactions rebought_state)) = Some ''#LUX-005''
   \<and> fst (burnToken (env_sample (30 * day_ms)) ''#LUX-005'' rebought_state) = TokenBurned"
proof -
  have 1: "fst (burnToken (env_sample (10 * day_ms)) ''#LUX-005'' bought_state) = WithinLockPeriod"
    by (simp add: burnToken_cases sample_findIndex bought_state_tokens
        sample_token_def env_sample_def day_ms_def)
  have 3: "burnToken (env_sample (15 * day_ms)) tid burned_state = (TokenNotFound, burned_state)"
    for tid
    by (simp add: burnToken_cases burned_state_tokens)
  have 4: "tx_type (hd (transactions burned_state)) = burn"
    "tx_tokenId (hd (transactions burned_state)) = Some ''#LUX-005''"
    by (simp_all add: burned_state_def burnToken_cases sample_findIndex bought_state_tokens
        sample_token_def env_sample_def day_ms_def)
  have 5: "rebought_state = step (env_sample (16 * day_ms)) ConfirmReceipt burned_state"
    by (simp add: rebought_state_def)
  have 6: "fst (burnToken (env_sample (30 * day_ms)) ''#LUX-005'' rebought_state) = TokenBurned"
    by (simp add: burnToken_cases rebought_state_tokens sample_token_def env_sample_def)
  from 1 sample_burn 3 4 5 rebought_state_ledger 6 show ?thesis
    by (simp only: simp_thms)
qed

text \<open>
  Claim C2, amended. Once a token is burned and no other owned token carries its id, the
  id is gone from the owned tokens, and a burn attempt on it ends with
  \<open>Token not found.\<close> and changes nothing. This lasts as long as the id is not issued
  again: after every sequence of operations in which no purchase composes that id and
  the initial listing, if it is loaded, does not name it, the id is still not owned, a
  burn attempt on it still ends with \<open>Token not found.\<close> and changes nothing, and
  none of the entries put on the ledger since the burn carries the id.
\<close>

theorem burned_token_not_found_again:
  assumes "burnToken e tokenId s = (TokenBurned, s')"
    and "length (filter (\<lambda>t. tk_id t = tokenId) (ownedTokens s)) = 1"
  shows "findIndex (\<lambda>t. tk_id t = tokenId) (ownedTokens s') = None
         \<and> burnToken e' tokenId s' = (TokenNotFound, s')
         \<and> (never_issued tokenId ops s' \<longrightarrow>
              findIndex (\<lambda>t. tk_id t = tokenId) (ownedTokens (run ops s')) = None
              \<and> burnToken e'' tokenId (run ops s') = (TokenNotFound, run ops s')
              \<and> (\<exists>new. transactions (run ops s') = new @ transactions s'
                    \<and> list_all (\<lambda>t. tx_tokenId t \<noteq> Some tokenId) new))"
proof (intro conjI impI)
  show absent: "findIndex (\<lambda>t. tk_id t = tokenId) (ownedTokens s') = None"
    using assms by (rule burned_id_absent)
  then show "burnToken e' tokenId s' = (TokenNotFound, s')"
    by (simp add: burnToken_cases)
  assume ni: "never_issued tokenId ops s'"
  note r = absent_run[OF absent ni]
  from r show later: "findIndex (\<lambda>t. tk_id t = tokenId) (ownedTokens (run ops s')) = None"
    by (rule conjunct1)
  then show "burnToken e'' tokenId (run ops s') = (TokenNotFound, run ops s')"
    by (simp add: burnToken_cases)
  from r show "\<exists>new. transactions (run ops s') = new @ transactions s'
                    \<and> list_all (\<lambda>t. tx_tokenId t \<noteq> Some tokenId) new"
    by (rule conjunct2)
qed

lemma sample_single:
  "length (filter (\<lambda>t. tk_id t = ''#LUX-005'') (ownedTokens bought_state)) = 1"
  by (simp add: bought_state_tokens sample_token_def)

lemma sample_never_issued:
  "never_issued ''#LUX-005''
     [((env_sample (16 * day_ms)) \<lparr> random100 := 7 \<rparr>, ConfirmReceipt),
      (env_sample (17 * day_ms), BurnToken ''#LUX-005''),
      (env_sample (18 * day_ms), LoadInitialTransactions)] burned_state"
  by (simp add: issued_id_def burned_state_product token_number_8 env_sample_def
      initialMints_def initialTransfers_def initial_tx_def)

theorem burned_token_not_found_again_witness:
  "burnToken (env_sample (15 * day_ms)) ''#LUX-005'' bought_state = (TokenBurned, burned_state)
   \<and> length (filter (\<lambda>t. tk_id t = ''#LUX-005'') (ownedTokens bought_state)) = 1
   \<and> burnToken (env_sample (16 * day_ms)) ''#LUX-005'' burned_state
       = (TokenNotFound, burned_state)
   \<and> never_issued ''#LUX-005''
       [((env_sample (16 * day_ms)) \<lparr> random100 := 7 \<rparr>, ConfirmReceipt),
        (env_sample (17 * day_ms), BurnToken ''#LUX-005''),
        (env_sample (18 * day_ms), LoadInitialTransactions)] burned_state
   \<and> burnToken (env_sample (40 * day_ms)) ''#LUX-005''
        (run [((env_sample (16 * day_ms)) \<lparr> random100 := 7 \<rparr>, ConfirmReceipt),
              (env_sample (17 * day_ms), BurnToken ''#LUX-005''),
              (env_sample (18 * day_ms), LoadInitialTransactions)] burned_state)
       = (TokenNotFound,
          run [((env_sample (16 * day_ms)) \<lparr> random100 := 7 \<rparr>, ConfirmReceipt),
               (env_sample (17 * day_ms), BurnToken ''#LUX-005''),
               (env_sample (18 * day_ms), LoadInitialTransactions)] burned_state)
   \<and> (\<exists>new. transactions
               (run [((env_sample (16 * day_ms)) \<lparr> random100 := 7 \<rparr>, ConfirmReceipt),
                     (env_sample (17 * day_ms), BurnToken ''#LUX-005''),
                     (env_sample (18 * day_ms), LoadInitialTransactions)] burned_state)
             = new @ transactions burned_state
           \<and> list_all (\<lambda>t. tx_tokenId t \<noteq> Some ''#LUX-005'') new)"
proof -
  note t = burned_token_not_found_again [OF sample_burn sample_single,
      of "env_sample (16 * day_ms)"
         "[((env_sample (16 * day_ms)) \<lparr> random100 := 7 \<rparr>, ConfirmReceipt),
           (env_sample (17 * day_ms), BurnToken ''#LUX-005''),
           (env_sample (18 * day_ms), LoadInitialTransactions)]"
         "env_sample (40 * day_ms)"]
  note a = t [THEN conjunct2, THEN conjunct1]
  note b = t [THEN conjunct2, THEN conjunct2, rule_format, OF sample_never_issued]
  from sample_burn sample_single a sample_never_issued
    b [THEN conjunct2, THEN conjunct1] b [THEN conjunct2, THEN conjunct2]
  show ?thesis
    by (simp only: simp_thms)
qed

text \<open>
  Claim C3, as stated, fails: before the burn \<open>showTokenDetails\<close> finds the token,
  after the burn the collection of owned tokens is empty and \<open>showTokenDetails\<close>
  answers \<open>Token not found.\<close>.
\<close>

theorem burned_token_details_lost:
  "showTokenDetails ''#LUX-005'' bought_state = Inr sample_token
   \<and> burnToken (env_sample (15 * day_ms)) ''#LUX-005'' bought_state = (TokenBurned, burned_state)
   \<and> ownedTokens burned_state = []
   \<and> showTokenDetails ''#LUX-005'' burned_state = Inl ''Token not found.''"
proof -
  have 1: "showTokenDetails ''#LUX-005'' bought_state = Inr sample_token"
    by (simp add: showTokenDetails_def bought_state_tokens sample_token_def)
  have 3: "showTokenDetails ''#LUX-005'' burned_state = Inl ''Token not found.''"
    by (simp add: showTokenDetails_def burned_state_tokens)
  from 1 sample_burn burned_state_tokens 3 show ?thesis
    by (simp only: simp_thms)
qed

text \<open>
  Claim C3, amended. A successful burn deletes the token from the owned tokens (the
  collection shrinks by that one element), and when no other owned token carries the
  same id, \<open>showTokenDetails\<close> no longer finds it. What remains of the token is the
  burn entry at the head of the ledger, with the token's id and product name; after
  every sequence of later operations the ledger still ends with the ledger as it was
  right after the burn, so that the entry is never removed.
\<close>

theorem burn_removes_token:
  assumes "burnToken e tokenId s = (TokenBurned, s')"
  shows "(\<exists>i. findIndex (\<lambda>t. tk_id t = tokenId) (ownedTokens s) = Some i
            \<and> ownedTokens s' = take i (ownedTokens s) @ drop (Suc i) (ownedTokens s)
            \<and> tx_product (hd (transactions s')) = tk_product (ownedTokens s ! i))
         \<and> Suc (length (ownedTokens s')) = length (ownedTokens s)
         \<and> (length (filter (\<lambda>t. tk_id t = tokenId) (ownedTokens s)) = 1 \<longrightarrow>
              showTokenDetails tokenId s' = Inl ''Token not found.'')
         \<and> tx_type (hd (transactions s')) = burn
         \<and> tx_tokenId (hd (transactions s')) = Some tokenId
         \<and> tl (transactions s') = transactions s
         \<and> (\<exists>new. transactions (run ops s') = new @ transactions s')
         \<and> hd (transactions s') \<in> set (transactions (run ops s'))"
proof -
  from assms obtain i where i: "findIndex (\<lambda>t. tk_id t = tokenId) (ownedTokens s) = Some i"
    and s': "s' = s \<lparr> transactionCounter := transactionCounter s + 1,
              transactions :=
                \<lparr> tx_id = transactionCounter s, tx_type = burn,
                  tx_product = tk_product (ownedTokens s ! i),
                  tx_from = ''bc1q...demo'', tx_to = ''addr1...daf4w (Burn Address)'',
                  tx_tokenId = Some tokenId, tx_amount = None,
                  tx_timestamp = time_str e,
                  tx_certification = None, tx_carbonFootprint = None \<rparr>
                # transactions s,
              ownedTokens := take i (ownedTokens s) @ drop (Suc i) (ownedTokens s) \<rparr>"
    by (rule burnToken_burned)
  from findIndex_Some[OF i] have lt: "i < length (ownedTokens s)" by simp
  have tokens: "ownedTokens s' = take i (ownedTokens s) @ drop (Suc i) (ownedTokens s)"
    by (simp add: s')
  have ledger: "transactions s' =
      \<lparr> tx_id = transactionCounter s, tx_type = burn,
        tx_product = tk_product (ownedTokens s ! i),
        tx_from = ''bc1q...demo'', tx_to = ''addr1...daf4w (Burn Address)'',
        tx_tokenId = Some tokenId, tx_amount = None,
        tx_timestamp = time_str e,
        tx_certification = None, tx_carbonFootprint = None \<rparr> # transactions s"
    by (simp add: s')
  have len: "Suc (length (ownedTokens s')) = length (ownedTokens s)"
    using lt by (simp add: tokens)
  have det: "length (filter (\<lambda>t. tk_id t = tokenId) (ownedTokens s)) = 1 \<longrightarrow>
              showTokenDetails tokenId s' = Inl ''Token not found.''"
    using burned_id_absent[OF assms] showTokenDetails_not_found by blast
  have ext: "extends s' (run ops s')" by (rule extends_run)
  then have suffix: "\<exists>new. transactions (run ops s') = new @ transactions s'"
    by (rule extends_suffix)
  have "hd (transactions s') \<in> set (transactions s')"
    by (simp add: ledger)
  with ext have keep: "hd (transactions s') \<in> set (transactions (run ops s'))"
    by (rule extends_keeps)
  show ?thesis
    using i tokens len det keep suffix by (simp add: ledger)
qed

theorem burn_removes_token_witness:
  "burnToken (env_sample (15 * day_ms)) ''#LUX-005'' bought_state = (TokenBurned, burned_state)
   \<and> Suc (length (ownedTokens burned_state)) = length (ownedTokens bought_state)
   \<and> length (filter (\<lambda>t. tk_id t = ''#LUX-005'') (ownedTokens bought_state)) = 1
   \<and> showTokenDetails ''#LUX-005'' burned_state = Inl ''Token not found.''
   \<and> tx_type (hd (transactions burned_state)) = burn
   \<and> tx_tokenId (hd (transactions burned_state)) = Some ''#LUX-005''
   \<and> hd (transactions burned_state)
       \<in> set (transactions
           (run [(env_sample (16 * day_ms), ConfirmReceipt),
                 (env_sample (17 * day_ms), LoadInitialTransactions),
                 (env_sample (30 * day_ms), BurnToken ''#LUX-005'')] burned_state))"
proof -
  note t = burn_removes_token [OF sample_burn,
      of "[(env_sample (16 * day_ms), ConfirmReceipt),
           (env_sample (17 * day_ms), LoadInitialTransactions),
           (env_sample (30 * day_ms), BurnToken ''#LUX-005'')]"]
  note c2 = t [THEN conjunct2, THEN conjunct1]
  note c3 = t [THEN conjunct2, THEN conjunct2, THEN conjunct1, rule_format, OF sample_single]
  note c4 = t [THEN conjunct2, THEN conjunct2, THEN conjunct2, THEN conjunct1]
  note c5 = t [THEN conjunct2, THEN conjunct2, THEN conjunct2, THEN conjunct2, THEN conjunct1]
  note c8 = t [THEN conjunct2, THEN conjunct2, THEN conjunct2, THEN conjunct2, THEN conjunct2,
      THEN conjunct2, THEN conjunct2]
  from sample_burn c2 sample_single c3 c4 c5 c8 show ?thesis
    by (simp only: simp_thms)
qed

subsection \<open>The trusted directory\<close>

lemma member_trustedAddresses:
  "address \<in> set trustedAddresses =
     (address = ''0xU...rah5r'' \<or> address = ''0xU...ph4rm''
      \<or> address = ''0xU...m4rkT'' \<or> address = ''0xU...Gr3nT'')"
  by (auto simp: trustedAddresses_def)

lemma pharmacy_trusted: "''0xU...ph4rm'' \<in> set trustedAddresses"
  by (simp add: trustedAddresses_def)

text \<open>
  Claim C6, as stated, fails: the directory is not kept by category. The address
  \<open>0xU...ph4rm\<close> is the retailer of the category \<open>Sensitive Medication\<close>, not of
  \<open>Luxury Fragrance\<close>; a payment for the fragrance to that address is not rejected: it
  raises a warning only, and the payment to that address is recorded on the ledger.
\<close>

theorem other_category_retailer_is_paid:
  "p_category (productInfo fragrance) = ''Luxury Fragrance''
   \<and> p_retailerAddress (productInfo fragrance) = ''0xU...rah5r''
   \<and> p_category (productInfo medication) = ''Sensitive Medication''
   \<and> p_retailerAddress (productInfo medication) = ''0xU...ph4rm''
   \<and> fst (verifyRetailerAddress ''10:00 AM'' ''0xU...ph4rm'' (productInfo fragrance) appState)
       = AlertWarning
   \<and> map tx_type (transactions
        (snd (verifyRetailerAddress ''10:00 AM'' ''0xU...ph4rm'' (productInfo fragrance) appState)))
       = [payment]
   \<and> map tx_to (transactions
        (snd (verifyRetailerAddress ''10:00 AM'' ''0xU...ph4rm'' (productInfo fragrance) appState)))
       = [''0xU...ph4rm'']
   \<and> transactions appState = []"
  by (simp add: verifyRetailerAddress_def pharmacy_trusted addTransaction_def appState_def)

text \<open>
  Claim C6, amended. The trusted directory is one list of four retailer addresses, the
  same for every product category. The lookup is a membership test: it is false for
  every other address and cannot fail. A payment to an address outside the directory
  ends with the error alert and leaves the state as it was: no payment entry is
  recorded, no token is issued. A payment to an address of the directory is recorded,
  whichever category the address is the retailer of: with the success message when it
  is the retailer of the product, with a warning when it is not.
\<close>

theorem untrusted_retailer_rejected:
  "address \<in> set trustedAddresses =
     (address = ''0xU...rah5r'' \<or> address = ''0xU...ph4rm''
      \<or> address = ''0xU...m4rkT'' \<or> address = ''0xU...Gr3nT'')
   \<and> (address \<notin> set trustedAddresses \<longrightarrow>
        verifyRetailerAddress clock address product s = (AlertError, s)
        \<and> transactions (step e (VerifyRetailerAddress address product) s) = transactions s
        \<and> ownedTokens (step e (VerifyRetailerAddress address product) s) = ownedTokens s)
   \<and> (address' \<in> set trustedAddresses \<longrightarrow>
        fst (verifyRetailerAddress clock' address' product' s')
          = (if address' \<noteq> p_retailerAddress product' then AlertWarning else AlertSuccess)
        \<and> transactions (snd (verifyRetailerAddress clock' address' product' s'))
          = \<lparr> tx_id = transactionCounter s', tx_type = payment,
              tx_product = p_name product', tx_from = ''bc1q...demo'', tx_to = address',
              tx_tokenId = None,
              tx_amount = Some (to_string_radix 10 (p_price product') @ '' DLLR''),
              tx_timestamp = clock',
              tx_certification = None, tx_carbonFootprint = None \<rparr> # transactions s'
        \<and> ownedTokens (snd (verifyRetailerAddress clock' address' product' s'))
          = ownedTokens s')"
proof (intro conjI impI)
  show "address \<in> set trustedAddresses =
     (address = ''0xU...rah5r'' \<or> address = ''0xU...ph4rm''
      \<or> address = ''0xU...m4rkT'' \<or> address = ''0xU...Gr3nT'')"
    by (rule member_trustedAddresses)
next
  assume a: "address \<notin> set trustedAddresses"
  then show r: "verifyRetailerAddress clock address product s = (AlertError, s)"
    by (simp add: verifyRetailerAddress_def)
  from a have "step e (VerifyRetailerAddress address product) s = s"
    by (simp add: verifyRetailerAddress_def)
  then show "transactions (step e (VerifyRetailerAddress address product) s) = transactions s"
    "ownedTokens (step e (VerifyRetailerAddress address product) s) = ownedTokens s"
    by simp_all
next
  assume a: "address' \<in> set trustedAddresses"
  then show "fst (verifyRetailerAddress clock' address' product' s')
          = (if address' \<noteq> p_retailerAddress product' then AlertWarning else AlertSuccess)"
    by (simp add: verifyRetailerAddress_def)
  from a show "transactions (snd (verifyRetailerAddress clock' address' product' s'))
          = \<lparr> tx_id = transactionCounter s', tx_type = payment,
              tx_product = p_name product', tx_from = ''bc1q...demo'', tx_to = address',
              tx_tokenId = None,
              tx_amount = Some (to_string_radix 10 (p_price product') @ '' DLLR''),
              tx_timestamp = clock',
              tx_certification = None, tx_carbonFootprint = None \<rparr> # transactions s'"
    by (simp add: verifyRetailerAddress_def addTransaction_def)
  from a show "ownedTokens (snd (verifyRetailerAddress clock' address' product' s'))
          = ownedTokens s'"
    by (simp add: verifyRetailerAddress_def addTransaction_def)
qed

theorem untrusted_retailer_rejected_witness:
  "''0xU...f4k3'' \<notin> set trustedAddresses
   \<and> verifyRetailerAddress ''10:00 AM'' ''0xU...f4k3'' (productInfo fragrance) appState
       = (AlertError, appState)
   \<and> transactions (step (env_sample 0)
        (VerifyRetailerAddress ''0xU...f4k3'' (productInfo fragrance)) appState)
       = transactions appState
   \<and> ''0xU...ph4rm'' \<in> set trustedAddresses
   \<and> fst (verifyRetailerAddress ''10:00 AM'' ''0xU...ph4rm'' (productInfo fragrance) appState)
       = (if ''0xU...ph4rm'' \<noteq> p_retailerAddress (productInfo fragrance)
          then AlertWarning else AlertSuccess)
   \<and> ownedTokens
        (snd (verifyRetailerAddress ''10:00 AM'' ''0xU...ph4rm'' (productInfo fragrance) appState))
       = ownedTokens appState"
proof -
  have a: "''0xU...f4k3'' \<notin> set trustedAddresses"
    by (simp add: trustedAddresses_def)
  note t = untrusted_retailer_rejected [of "''0xU...f4k3''" "''10:00 AM''"
      "productInfo fragrance" appState "env_sample 0" "''0xU...ph4rm''" "''10:00 AM''"
      "productInfo fragrance" appState]
  note u = t [THEN conjunct2, THEN conjunct1, rule_format, OF a]
  note v = t [THEN conjunct2, THEN conjunct2, rule_format, OF pharmacy_trusted]
  from a u [THEN conjunct1] u [THEN conjunct2, THEN conjunct1] pharmacy_trusted
    v [THEN conjunct1] v [THEN conjunct2, THEN conjunct2]
  show ?thesis by (simp only: simp_thms)
qed

end
